theory Spec2Isabelle
  imports Main "HOL-Library.Multiset" "HOL-Library.AList"
begin

section \<open>The message store (db.go)\<close>

text \<open>
  The Go struct \<^verbatim>\<open>MessageRecord\<close> and one row of the SQLite table \<^verbatim>\<open>messages\<close>.
  Go strings are byte strings, so \<open>string\<close> (a list of 8-bit characters) is their model;
  \<^verbatim>\<open>int64\<close> and \<^verbatim>\<open>int\<close> values are modelled as unbounded integers (no arithmetic
  below comes near the 64-bit range: identifiers are copied, the retry count grows by one
  per failed upload).
\<close>

record MessageRecord =
  ID :: string
  Session :: string
  Type :: string
  Text :: string
  Origin :: string
  TgDelivered :: bool
  TgMsgID :: int
  RetryCount :: int
  Timestamp :: int

record msg_row =
  col_id :: string
  col_session :: string
  col_type :: string
  col_text :: string
  col_origin :: string
  col_tg_delivered :: int
  col_tg_msg_id :: int
  col_retry_count :: int
  col_created_at :: int

text \<open>
  The table is the list of its rows in insertion (rowid) order. \<^verbatim>\<open>openDB()\<close> returns
  \<^verbatim>\<open>nil\<close> when the database cannot be opened: the handle is an \<open>option\<close>. A statement
  on an open database is taken to succeed (a busy or damaged database is not modelled).
\<close>

type_synonym messages = "msg_row list"
type_synonym db = "messages option"

definition boolToInt :: "bool \<Rightarrow> int" where
  "boolToInt b = (if b then 1 else 0)"

definition maxRetries :: int where
  "maxRetries = 5"

text \<open>The row of the \<^verbatim>\<open>VALUES (?, ?, ?, ?, ?, ?, ?, 0, ?)\<close> clause of \<^verbatim>\<open>appendMessage\<close>.\<close>

definition valuesRow :: "MessageRecord \<Rightarrow> int \<Rightarrow> msg_row" where
  "valuesRow rec ts =
     \<lparr> col_id = ID rec, col_session = Session rec, col_type = Type rec,
       col_text = Text rec, col_origin = Origin rec,
       col_tg_delivered = boolToInt (TgDelivered rec), col_tg_msg_id = TgMsgID rec,
       col_retry_count = 0, col_created_at = ts \<rparr>"

text \<open>
  \<^verbatim>\<open>ON CONFLICT(id) DO UPDATE SET tg_delivered = MAX(tg_delivered, excluded.tg_delivered),
  tg_msg_id = CASE WHEN excluded.tg_msg_id > 0 THEN excluded.tg_msg_id ELSE tg_msg_id END\<close>
\<close>

definition onConflict :: "msg_row \<Rightarrow> msg_row \<Rightarrow> msg_row" where
  "onConflict excluded old =
     old \<lparr> col_tg_delivered := max (col_tg_delivered old) (col_tg_delivered excluded),
           col_tg_msg_id := (if col_tg_msg_id excluded > 0 then col_tg_msg_id excluded
                             else col_tg_msg_id old) \<rparr>"

fun upsert :: "msg_row \<Rightarrow> messages \<Rightarrow> messages" where
  "upsert excluded [] = [excluded]"
| "upsert excluded (r # rs) =
     (if col_id r = col_id excluded then onConflict excluded r # rs
      else r # upsert excluded rs)"

datatype db_error = DbNotOpen

text \<open>
  \<^verbatim>\<open>appendMessage\<close>: \<open>now\<close> is the reading of \<^verbatim>\<open>time.Now().UnixMilli()\<close>, used
  when the record carries no timestamp. The result is the error value and the new store.
\<close>

definition appendMessage :: "int \<Rightarrow> MessageRecord \<Rightarrow> db \<Rightarrow> db_error option \<times> db" where
  "appendMessage now rec d =
     (case d of
        None \<Rightarrow> (Some DbNotOpen, None)
      | Some rows \<Rightarrow>
          (let ts = (if Timestamp rec = 0 then now else Timestamp rec)
           in (None, Some (upsert (valuesRow rec ts) rows))))"

text \<open>\<^verbatim>\<open>UPDATE messages SET tg_delivered = 1, tg_msg_id = ? WHERE id = ?\<close>\<close>

definition markDelivered :: "string \<Rightarrow> int \<Rightarrow> db \<Rightarrow> db_error option \<times> db" where
  "markDelivered msgID tgMsgID d =
     (case d of
        None \<Rightarrow> (Some DbNotOpen, None)
      | Some rows \<Rightarrow>
          (None, Some (map (\<lambda>r. if col_id r = msgID
                                  then r \<lparr> col_tg_delivered := 1, col_tg_msg_id := tgMsgID \<rparr>
                                  else r) rows)))"

definition isDelivered :: "string \<Rightarrow> db \<Rightarrow> bool" where
  "isDelivered msgID d =
     (case d of
        None \<Rightarrow> False
      | Some rows \<Rightarrow>
          (case find (\<lambda>r. col_id r = msgID) rows of
             None \<Rightarrow> False
           | Some r \<Rightarrow> col_tg_delivered r \<noteq> 0))"

definition rowToRecord :: "msg_row \<Rightarrow> MessageRecord" where
  "rowToRecord r =
     \<lparr> ID = col_id r, Session = col_session r, Type = col_type r, Text = col_text r,
       Origin = col_origin r, TgDelivered = (col_tg_delivered r \<noteq> 0),
       TgMsgID = col_tg_msg_id r, RetryCount = col_retry_count r,
       Timestamp = col_created_at r \<rparr>"

definition isPendingRow :: "string \<Rightarrow> msg_row \<Rightarrow> bool" where
  "isPendingRow session r \<longleftrightarrow>
     col_session r = session \<and> col_tg_delivered r = 0 \<and> col_retry_count r < maxRetries"

text \<open>
  \<^verbatim>\<open>findPending\<close>: the \<^verbatim>\<open>WHERE\<close> clause is a filter, \<^verbatim>\<open>ORDER BY created_at\<close> a sort
  by that key. SQL leaves the order of rows with equal keys open; the model keeps them
  in insertion order (a stable sort), and nothing below depends on that choice.
\<close>

definition findPending :: "string \<Rightarrow> db \<Rightarrow> MessageRecord list" where
  "findPending session d =
     (case d of
        None \<Rightarrow> []
      | Some rows \<Rightarrow>
          map rowToRecord (sort_key col_created_at (filter (isPendingRow session) rows)))"

text \<open>\<^verbatim>\<open>UPDATE messages SET retry_count = retry_count + 1 WHERE id = ?\<close>\<close>

definition incRetry :: "string \<Rightarrow> db \<Rightarrow> db" where
  "incRetry msgID d =
     (case d of
        None \<Rightarrow> None
      | Some rows \<Rightarrow>
          Some (map (\<lambda>r. if col_id r = msgID
                           then r \<lparr> col_retry_count := col_retry_count r + 1 \<rparr>
                           else r) rows))"

definition isFromTelegram :: "string \<Rightarrow> string \<Rightarrow> db \<Rightarrow> bool" where
  "isFromTelegram session promptText d =
     (case d of
        None \<Rightarrow> False
      | Some rows \<Rightarrow>
          0 < length (filter (\<lambda>r. col_session r = session \<and> col_origin r = ''telegram''
                                   \<and> col_type r = ''user_prompt'' \<and> col_text r = promptText) rows))"

text \<open>\<^verbatim>\<open>SELECT DISTINCT session FROM messages WHERE tg_delivered = 0\<close>\<close>

definition allSessions :: "db \<Rightarrow> string list" where
  "allSessions d =
     (case d of
        None \<Rightarrow> []
      | Some rows \<Rightarrow> remdups (map col_session (filter (\<lambda>r. col_tg_delivered r = 0) rows)))"

subsection \<open>Reading the store\<close>

definition rowsOf :: "db \<Rightarrow> messages" where
  "rowsOf d = (case d of None \<Rightarrow> [] | Some rows \<Rightarrow> rows)"

definition lookupRow :: "string \<Rightarrow> db \<Rightarrow> msg_row option" where
  "lookupRow msgID d = find (\<lambda>r. col_id r = msgID) (rowsOf d)"

text \<open>A run of \<^verbatim>\<open>appendMessage\<close> calls, each with its own clock reading.\<close>

fun appendAll :: "(int \<times> MessageRecord) list \<Rightarrow> db \<Rightarrow> db" where
  "appendAll [] d = d"
| "appendAll ((now, rec) # ms) d = appendAll ms (snd (appendMessage now rec d))"

subsection \<open>Insert-or-upgrade\<close>

lemma find_upsert:
  "find (\<lambda>r. col_id r = i) (upsert ex rows) =
     (if i = col_id ex
      then Some (case find (\<lambda>r. col_id r = i) rows of None \<Rightarrow> ex | Some old \<Rightarrow> onConflict ex old)
      else find (\<lambda>r. col_id r = i) rows)"
  by (induction rows) (auto simp: onConflict_def)

lemma col_id_valuesRow: "col_id (valuesRow rec ts) = ID rec"
  by (simp add: valuesRow_def)

lemma lookupRow_appendMessage:
  "lookupRow i (snd (appendMessage now rec (Some rows))) =
     (if i = ID rec
      then Some (case lookupRow i (Some rows) of
                   None \<Rightarrow> valuesRow rec (if Timestamp rec = 0 then now else Timestamp rec)
                 | Some old \<Rightarrow>
                     onConflict (valuesRow rec (if Timestamp rec = 0 then now else Timestamp rec)) old)
      else lookupRow i (Some rows))"
  by (simp add: appendMessage_def lookupRow_def rowsOf_def find_upsert col_id_valuesRow Let_def)

lemma appendMessage_open:
  "\<exists>rows'. snd (appendMessage now rec (Some rows)) = Some rows'"
  by (simp add: appendMessage_def Let_def)

lemma appendAll_open: "\<exists>rows'. appendAll ms (Some rows) = Some rows'"
proof (induction ms arbitrary: rows)
  case Nil
  show ?case by simp
next
  case (Cons a ms)
  obtain now rec where a: "a = (now, rec)" by (cases a)
  obtain rows1 where r1: "snd (appendMessage now rec (Some rows)) = Some rows1"
    using appendMessage_open by blast
  show ?case using Cons.IH [of rows1] by (simp add: a r1)
qed

lemma appendAll_append: "appendAll (ms1 @ ms2) d = appendAll ms2 (appendAll ms1 d)"
  by (induction ms1 arbitrary: d) auto

text \<open>One further append of the same id keeps the row and can only upgrade it.\<close>

lemma appendMessage_same_id_step:
  assumes "lookupRow i (Some rows) = Some r" and "ID rec = i"
  shows "\<exists>r'. lookupRow i (snd (appendMessage now rec (Some rows))) = Some r'
           \<and> col_tg_delivered r \<le> col_tg_delivered r'
           \<and> (col_tg_msg_id r \<noteq> 0 \<longrightarrow> col_tg_msg_id r' \<noteq> 0)
           \<and> col_text r' = col_text r \<and> col_type r' = col_type r
           \<and> col_origin r' = col_origin r"
  using assms by (simp add: lookupRow_appendMessage onConflict_def)

lemma appendAll_same_id:
  assumes "lookupRow i (Some rows) = Some r" and "\<forall>(now, rec) \<in> set ms. ID rec = i"
  shows "\<exists>r'. lookupRow i (appendAll ms (Some rows)) = Some r'
           \<and> col_tg_delivered r \<le> col_tg_delivered r'
           \<and> (col_tg_msg_id r \<noteq> 0 \<longrightarrow> col_tg_msg_id r' \<noteq> 0)
           \<and> col_text r' = col_text r \<and> col_type r' = col_type r
           \<and> col_origin r' = col_origin r"
  using assms
proof (induction ms arbitrary: rows r)
  case Nil
  then show ?case by simp
next
  case (Cons a ms)
  obtain now rec where a: "a = (now, rec)" by (cases a)
  from Cons.prems a have idr: "ID rec = i" and rest: "\<forall>(now, rec) \<in> set ms. ID rec = i"
    by auto
  obtain rows1 where r1: "snd (appendMessage now rec (Some rows)) = Some rows1"
    using appendMessage_open by blast
  from appendMessage_same_id_step [OF Cons.prems(1) idr, of now] r1
  obtain r1' where s1: "lookupRow i (Some rows1) = Some r1'"
    and m1: "col_tg_delivered r \<le> col_tg_delivered r1'"
      "col_tg_msg_id r \<noteq> 0 \<longrightarrow> col_tg_msg_id r1' \<noteq> 0"
      "col_text r1' = col_text r" "col_type r1' = col_type r" "col_origin r1' = col_origin r"
    by auto
  from Cons.IH [OF s1 rest]
  obtain r' where s2: "lookupRow i (appendAll ms (Some rows1)) = Some r'"
    and m2: "col_tg_delivered r1' \<le> col_tg_delivered r'"
      "col_tg_msg_id r1' \<noteq> 0 \<longrightarrow> col_tg_msg_id r' \<noteq> 0"
      "col_text r' = col_text r1'" "col_type r' = col_type r1'" "col_origin r' = col_origin r1'"
    by auto
  have "lookupRow i (appendAll (a # ms) (Some rows)) = Some r'"
    using s2 by (simp add: a r1)
  with m1 m2 show ?case by auto
qed


text \<open>
  Claim C1. A message \<open>m\<close> is appended, then any number of further records with the same
  id (\<open>ms1\<close>, then \<open>ms2\<close>). The row stored by the first call is the inserted one when the
  id is new, and otherwise the old row with \<open>delivered = max(old, new)\<close> and
  \<open>external_id = new if new > 0 else old\<close>. Along the later appends the stored delivered
  flag never decreases, the stored external id never goes from non-zero to zero, and the
  stored text, kind and origin stay those of the first stored row.
\<close>

theorem appendMessage_upgrade_only:
  assumes "\<forall>(now, rec) \<in> set (ms1 @ ms2). ID rec = ID m"
  shows "\<exists>r0 r1 r2.
      lookupRow (ID m) (snd (appendMessage n0 m (Some rows))) = Some r0
    \<and> r0 = (case lookupRow (ID m) (Some rows) of
              None \<Rightarrow> valuesRow m (if Timestamp m = 0 then n0 else Timestamp m)
            | Some old \<Rightarrow>
                old \<lparr> col_tg_delivered := max (col_tg_delivered old) (boolToInt (TgDelivered m)),
                      col_tg_msg_id := (if TgMsgID m > 0 then TgMsgID m else col_tg_msg_id old) \<rparr>)
    \<and> lookupRow (ID m) (appendAll ((n0, m) # ms1) (Some rows)) = Some r1
    \<and> lookupRow (ID m) (appendAll ((n0, m) # ms1 @ ms2) (Some rows)) = Some r2
    \<and> col_tg_delivered r0 \<le> col_tg_delivered r1 \<and> col_tg_delivered r1 \<le> col_tg_delivered r2
    \<and> (col_tg_msg_id r0 \<noteq> 0 \<longrightarrow> col_tg_msg_id r1 \<noteq> 0)
    \<and> (col_tg_msg_id r1 \<noteq> 0 \<longrightarrow> col_tg_msg_id r2 \<noteq> 0)
    \<and> col_text r1 = col_text r0 \<and> col_text r2 = col_text r0
    \<and> col_type r1 = col_type r0 \<and> col_type r2 = col_type r0
    \<and> col_origin r1 = col_origin r0 \<and> col_origin r2 = col_origin r0"
proof -
  let ?i = "ID m"
  obtain rows0 where o0: "snd (appendMessage n0 m (Some rows)) = Some rows0"
    using appendMessage_open by blast
  define r0 where "r0 = (case lookupRow ?i (Some rows) of
              None \<Rightarrow> valuesRow m (if Timestamp m = 0 then n0 else Timestamp m)
            | Some old \<Rightarrow>
                onConflict (valuesRow m (if Timestamp m = 0 then n0 else Timestamp m)) old)"
  have l0: "lookupRow ?i (Some rows0) = Some r0"
    using lookupRow_appendMessage [of ?i n0 m rows] by (simp add: o0 r0_def)
  have r0_eq: "r0 = (case lookupRow ?i (Some rows) of
              None \<Rightarrow> valuesRow m (if Timestamp m = 0 then n0 else Timestamp m)
            | Some old \<Rightarrow>
                old \<lparr> col_tg_delivered := max (col_tg_delivered old) (boolToInt (TgDelivered m)),
                      col_tg_msg_id := (if TgMsgID m > 0 then TgMsgID m else col_tg_msg_id old) \<rparr>)"
    by (simp add: r0_def onConflict_def valuesRow_def split: option.splits)
  from assms have a1: "\<forall>(now, rec) \<in> set ms1. ID rec = ?i"
    and a2: "\<forall>(now, rec) \<in> set ms2. ID rec = ?i"
    by auto
  obtain rows1 where o1: "appendAll ms1 (Some rows0) = Some rows1"
    using appendAll_open by blast
  from appendAll_same_id [OF l0 a1] o1
  obtain r1 where l1: "lookupRow ?i (Some rows1) = Some r1"
    and m1: "col_tg_delivered r0 \<le> col_tg_delivered r1"
      "col_tg_msg_id r0 \<noteq> 0 \<longrightarrow> col_tg_msg_id r1 \<noteq> 0"
      "col_text r1 = col_text r0" "col_type r1 = col_type r0" "col_origin r1 = col_origin r0"
    by auto
  from appendAll_same_id [OF l1 a2]
  obtain r2 where l2: "lookupRow ?i (appendAll ms2 (Some rows1)) = Some r2"
    and m2: "col_tg_delivered r1 \<le> col_tg_delivered r2"
      "col_tg_msg_id r1 \<noteq> 0 \<longrightarrow> col_tg_msg_id r2 \<noteq> 0"
      "col_text r2 = col_text r1" "col_type r2 = col_type r1" "col_origin r2 = col_origin r1"
    by auto
  have e1: "appendAll ((n0, m) # ms1) (Some rows) = Some rows1"
    by (simp add: o0 o1)
  have e2: "appendAll ((n0, m) # ms1 @ ms2) (Some rows) = appendAll ms2 (Some rows1)"
    by (simp add: o0 o1 appendAll_append)
  have f0: "lookupRow ?i (snd (appendMessage n0 m (Some rows))) = Some r0"
    using l0 by (simp add: o0)
  have f1: "lookupRow ?i (appendAll ((n0, m) # ms1) (Some rows)) = Some r1"
    using l1 by (simp only: e1)
  have f2: "lookupRow ?i (appendAll ((n0, m) # ms1 @ ms2) (Some rows)) = Some r2"
    using l2 by (simp only: e2)
  have t: "col_text r2 = col_text r0" "col_type r2 = col_type r0"
    "col_origin r2 = col_origin r0"
    using m1 m2 by simp_all
  show ?thesis
    apply (rule exI [of _ r0])
    apply (rule exI [of _ r1])
    apply (rule exI [of _ r2])
    using f0 r0_eq f1 f2 m1 m2 t by blast
qed

text \<open>
  The test \<^verbatim>\<open>TestDBAppendAndQuery\<close> of the repository, continued by one more append: a
  delivered row is appended again undelivered with another text and no external id, then
  once more with external id 9.
\<close>

theorem appendMessage_upgrade_only_witness:
  "\<exists>r0 r1 r2.
      lookupRow ''test:1''
        (snd (appendMessage 1
           \<lparr> ID = ''test:1'', Session = ''s'', Type = ''user_prompt'', Text = ''hello world'',
             Origin = ''telegram'', TgDelivered = True, TgMsgID = 7, RetryCount = 0,
             Timestamp = 0 \<rparr> (Some []))) = Some r0
    \<and> r0 = \<lparr> col_id = ''test:1'', col_session = ''s'', col_type = ''user_prompt'',
             col_text = ''hello world'', col_origin = ''telegram'', col_tg_delivered = 1,
             col_tg_msg_id = 7, col_retry_count = 0, col_created_at = 1 \<rparr>
    \<and> lookupRow ''test:1''
        (appendAll
          [(1, \<lparr> ID = ''test:1'', Session = ''s'', Type = ''user_prompt'', Text = ''hello world'',
                 Origin = ''telegram'', TgDelivered = True, TgMsgID = 7, RetryCount = 0,
                 Timestamp = 0 \<rparr>),
           (2, \<lparr> ID = ''test:1'', Session = ''s'', Type = ''user_prompt'',
                 Text = ''different text'', Origin = ''terminal'', TgDelivered = False,
                 TgMsgID = 0, RetryCount = 0, Timestamp = 0 \<rparr>)] (Some [])) = Some r1
    \<and> lookupRow ''test:1''
        (appendAll
          [(1, \<lparr> ID = ''test:1'', Session = ''s'', Type = ''user_prompt'', Text = ''hello world'',
                 Origin = ''telegram'', TgDelivered = True, TgMsgID = 7, RetryCount = 0,
                 Timestamp = 0 \<rparr>),
           (2, \<lparr> ID = ''test:1'', Session = ''s'', Type = ''user_prompt'',
                 Text = ''different text'', Origin = ''terminal'', TgDelivered = False,
                 TgMsgID = 0, RetryCount = 0, Timestamp = 0 \<rparr>),
           (3, \<lparr> ID = ''test:1'', Session = ''s'', Type = ''notification'',
                 Text = ''third'', Origin = ''claude'', TgDelivered = False,
                 TgMsgID = 9, RetryCount = 0, Timestamp = 0 \<rparr>)] (Some [])) = Some r2
    \<and> col_tg_delivered r1 = 1 \<and> col_tg_delivered r2 = 1
    \<and> col_tg_msg_id r1 = 7 \<and> col_tg_msg_id r2 = 9
    \<and> col_text r1 = ''hello world'' \<and> col_text r2 = ''hello world''
    \<and> col_type r2 = ''user_prompt'' \<and> col_origin r2 = ''telegram''"
proof -
  let ?m = "\<lparr> ID = ''test:1'', Session = ''s'', Type = ''user_prompt'', Text = ''hello world'',
             Origin = ''telegram'', TgDelivered = True, TgMsgID = 7, RetryCount = 0,
             Timestamp = 0 \<rparr>"
  let ?m1 = "\<lparr> ID = ''test:1'', Session = ''s'', Type = ''user_prompt'',
                 Text = ''different text'', Origin = ''terminal'', TgDelivered = False,
                 TgMsgID = 0, RetryCount = 0, Timestamp = 0 \<rparr>"
  let ?m2 = "\<lparr> ID = ''test:1'', Session = ''s'', Type = ''notification'',
                 Text = ''third'', Origin = ''claude'', TgDelivered = False,
                 TgMsgID = 9, RetryCount = 0, Timestamp = 0 \<rparr>"
  have h: "\<forall>(now, rec) \<in> set ([(2, ?m1)] @ [(3, ?m2)]). ID rec = ID ?m"
    by simp
  have c0: "lookupRow ''test:1'' (snd (appendMessage 1 ?m (Some []))) =
      Some \<lparr> col_id = ''test:1'', col_session = ''s'', col_type = ''user_prompt'',
             col_text = ''hello world'', col_origin = ''telegram'', col_tg_delivered = 1,
             col_tg_msg_id = 7, col_retry_count = 0, col_created_at = 1 \<rparr>"
    by (simp add: appendMessage_def lookupRow_def rowsOf_def valuesRow_def boolToInt_def)
  have c1: "lookupRow ''test:1'' (appendAll [(1, ?m), (2, ?m1)] (Some [])) =
      Some \<lparr> col_id = ''test:1'', col_session = ''s'', col_type = ''user_prompt'',
             col_text = ''hello world'', col_origin = ''telegram'', col_tg_delivered = 1,
             col_tg_msg_id = 7, col_retry_count = 0, col_created_at = 1 \<rparr>"
    by (simp add: appendMessage_def lookupRow_def rowsOf_def valuesRow_def boolToInt_def
        onConflict_def)
  have c2: "lookupRow ''test:1'' (appendAll [(1, ?m), (2, ?m1), (3, ?m2)] (Some [])) =
      Some \<lparr> col_id = ''test:1'', col_session = ''s'', col_type = ''user_prompt'',
             col_text = ''hello world'', col_origin = ''telegram'', col_tg_delivered = 1,
             col_tg_msg_id = 9, col_retry_count = 0, col_created_at = 1 \<rparr>"
    by (simp add: appendMessage_def lookupRow_def rowsOf_def valuesRow_def boolToInt_def
        onConflict_def)
  from appendMessage_upgrade_only [OF h, of 1 "[]"]
  obtain r0 r1 r2 where
    "lookupRow ''test:1'' (snd (appendMessage 1 ?m (Some []))) = Some r0"
    "lookupRow ''test:1'' (appendAll ((1, ?m) # [(2, ?m1)]) (Some [])) = Some r1"
    "lookupRow ''test:1'' (appendAll ((1, ?m) # [(2, ?m1)] @ [(3, ?m2)]) (Some [])) = Some r2"
    by auto
  with c0 c1 c2 show ?thesis
    by auto
qed

subsection \<open>The pending scan\<close>




section \<open>The delivery loop (session.go)\<close>

subsection \<open>Strings and formatting\<close>

text \<open>\<^verbatim>\<open>strings.HasPrefix\<close> and \<^verbatim>\<open>strings.Contains\<close> on byte strings.\<close>

fun HasPrefix :: "string \<Rightarrow> string \<Rightarrow> bool" where
  "HasPrefix s [] = True"
| "HasPrefix [] (p # ps) = False"
| "HasPrefix (c # s) (p # ps) = (c = p \<and> HasPrefix s ps)"

fun Contains :: "string \<Rightarrow> string \<Rightarrow> bool" where
  "Contains [] sub = HasPrefix [] sub"
| "Contains (c # s) sub = (HasPrefix (c # s) sub \<or> Contains s sub)"

text \<open>The verb \<^verbatim>\<open>%d\<close> of \<^verbatim>\<open>fmt.Sprintf\<close>: decimal digits, with a minus sign.\<close>

fun showNat :: "nat \<Rightarrow> string" where
  "showNat n =
     (if n < 10 then [''0123456789'' ! n]
      else showNat (n div 10) @ [''0123456789'' ! (n mod 10)])"

definition showInt :: "int \<Rightarrow> string" where
  "showInt i = (if i < 0 then CHR ''-'' # showNat (nat (- i)) else showNat (nat i))"

text \<open>
  Functions the loop calls that are not part of the modelled code are parameters:
  \<^verbatim>\<open>strings.ToLower\<close> of the Go library (it maps letters outside ASCII too) and the
  repository's \<^verbatim>\<open>markdownToHTML\<close>, whose source is not among the files at hand.
\<close>

record lib =
  ToLower :: "string \<Rightarrow> string"
  markdownToHTML :: "string \<Rightarrow> string"

text \<open>\<^verbatim>\<open>strings.ToLower\<close> on ASCII strings, for concrete runs.\<close>

definition asciiLower :: "string \<Rightarrow> string" where
  "asciiLower s =
     map (\<lambda>c. if (65::nat) \<le> of_char c \<and> of_char c \<le> (90::nat)
              then char_of (of_char c + (32::nat)) else c) s"

definition permanent :: "string list" where
  "permanent = [''chat not found'', ''bot was blocked'', ''bot was kicked'',
                ''chat_id is empty'', ''not enough rights'', ''PEER_ID_INVALID'']"

fun containsAny :: "lib \<Rightarrow> string \<Rightarrow> string list \<Rightarrow> bool" where
  "containsAny L lower [] = False"
| "containsAny L lower (p # ps) =
     (if Contains lower (ToLower L p) then True else containsAny L lower ps)"

definition isPermanentError :: "lib \<Rightarrow> string \<Rightarrow> bool" where
  "isPermanentError L errMsg = containsAny L (ToLower L errMsg) permanent"

subsection \<open>Configuration and the loop's world\<close>

text \<open>
  Modelled from the spec: the declarations of \<^verbatim>\<open>Config\<close> and \<^verbatim>\<open>SessionInfo\<close> are not
  among the source files; the spec's config file has \<open>chat_id\<close>, \<open>group_id\<close> and
  \<open>sessions{name \<rightarrow> {topic_id, path, window_id, claude_session_id}}\<close>, and the code reads
  them as \<^verbatim>\<open>config.ChatID\<close>, \<^verbatim>\<open>config.GroupID\<close>, \<^verbatim>\<open>config.Sessions[name].TopicID\<close>.
  The Go map is a list of entries in the order a \<^verbatim>\<open>range\<close> loop happens to visit them;
  an entry holding a nil pointer is \<open>None\<close>.
\<close>

record SessionInfo =
  TopicID :: int
  Path :: string
  WindowID :: string
  ClaudeSessionID :: string

record Config =
  ChatID :: int
  GroupID :: int
  Sessions :: "(string \<times> SessionInfo option) list"

record event =
  ev_session :: string
  ev_type :: string
  ev_source :: string
  ev_ref_id :: string
  ev_detail :: string

text \<open>
  What the listener process changes: the message table, the event table (same database
  handle), the uploads attempted through \<^verbatim>\<open>sendMessageHTMLGetID\<close> and the notices sent
  through \<^verbatim>\<open>sendMessage\<close>, each as (chat id, thread id, body) in call order. Lines written
  to the process log (\<^verbatim>\<open>listenLog\<close>) are left out.
\<close>

record world =
  store :: db
  events :: "event list"
  uploads :: "(int \<times> int \<times> string) list"
  notices :: "(int \<times> int \<times> string) list"

definition logEvent :: "string \<Rightarrow> string \<Rightarrow> string \<Rightarrow> string \<Rightarrow> string \<Rightarrow> world \<Rightarrow> world" where
  "logEvent session eventType source refID detail w =
     (case store w of
        None \<Rightarrow> w
      | Some _ \<Rightarrow>
          w \<lparr> events := events w @
                [\<lparr> ev_session = session, ev_type = eventType, ev_source = source,
                   ev_ref_id = refID, ev_detail = detail \<rparr>] \<rparr>)"

definition doMarkDelivered :: "string \<Rightarrow> int \<Rightarrow> world \<Rightarrow> world" where
  "doMarkDelivered msgID tgMsgID w = w \<lparr> store := snd (markDelivered msgID tgMsgID (store w)) \<rparr>"

definition doIncRetry :: "string \<Rightarrow> world \<Rightarrow> world" where
  "doIncRetry msgID w = w \<lparr> store := incRetry msgID (store w) \<rparr>"

definition sendMessage :: "int \<Rightarrow> int \<Rightarrow> string \<Rightarrow> world \<Rightarrow> world" where
  "sendMessage chatID threadID body w = w \<lparr> notices := notices w @ [(chatID, threadID, body)] \<rparr>"

subsection \<open>One cycle of \<^verbatim>\<open>deliveryLoop\<close>\<close>

definition isUploadType :: "string \<Rightarrow> bool" where
  "isUploadType t \<longleftrightarrow> t = ''user_prompt'' \<or> t = ''assistant_text'' \<or> t = ''notification''"

text \<open>The \<^verbatim>\<open>switch msg.Type\<close> of the loop, for the three kinds that are uploaded.\<close>

definition formatHTML :: "lib \<Rightarrow> string \<Rightarrow> MessageRecord \<Rightarrow> string" where
  "formatHTML L sessName msg =
     (if Type msg = ''user_prompt''
        then [CHR 0xF0, CHR 0x9F, CHR 0x92, CHR 0xAC] @ '' '' @ markdownToHTML L (Text msg)
      else if Type msg = ''assistant_text''
        then ''<b>'' @ sessName @ '':</b>'' @ [CHR 0x0A] @ markdownToHTML L (Text msg)
      else markdownToHTML L (Text msg))"

definition droppedPermanentText :: "string \<Rightarrow> string" where
  "droppedPermanentText errMsg =
     [CHR 0xE2, CHR 0x9D, CHR 0x8C] @ '' Message dropped (permanent error): '' @ errMsg"

definition droppedRetriesText :: "int \<Rightarrow> string \<Rightarrow> string" where
  "droppedRetriesText retry errMsg =
     [CHR 0xE2, CHR 0x9D, CHR 0x8C] @ '' Message dropped after '' @ showInt retry
       @ '' retries: '' @ errMsg"

definition sendFailedText :: "int \<Rightarrow> string \<Rightarrow> string" where
  "sendFailedText retry errMsg =
     [CHR 0xE2, CHR 0x9A, CHR 0xA0, CHR 0xEF, CHR 0xB8, CHR 0x8F] @ '' Send failed (''
       @ showInt retry @ ''/'' @ showInt maxRetries @ ''): '' @ errMsg"

text \<open>
  The body of \<^verbatim>\<open>if err != nil { ... break }\<close>: \<open>incRetry\<close> first, then the local
  \<^verbatim>\<open>retry := msg.RetryCount + 1\<close>, the event, and the three-way policy.
\<close>

definition onSendFailed :: "lib \<Rightarrow> int \<Rightarrow> int \<Rightarrow> string \<Rightarrow> MessageRecord \<Rightarrow> string \<Rightarrow> world \<Rightarrow> world" where
  "onSendFailed L groupID topicID sessName msg errMsg w =
     (let w1 = doIncRetry (ID msg) w;
          retry = RetryCount msg + 1;
          w2 = logEvent sessName ''send_failed'' ''listener'' (ID msg)
                 (''retry='' @ showInt retry @ '' err='' @ errMsg) w1
      in if isPermanentError L errMsg then
           sendMessage groupID topicID (droppedPermanentText errMsg)
             (doMarkDelivered (ID msg) 0 w2)
         else if retry \<ge> maxRetries then
           sendMessage groupID topicID (droppedRetriesText retry errMsg)
             (doMarkDelivered (ID msg) 0 w2)
         else if retry \<ge> 2 then
           sendMessage groupID topicID (sendFailedText retry errMsg) w2
         else w2)"

text \<open>
  The loop \<^verbatim>\<open>for _, msg := range pending\<close>. The chat API is the parameter \<open>api\<close>: the
  answer to the \<open>k\<close>-th call of \<^verbatim>\<open>sendMessageHTMLGetID\<close> made so far by the process is
  \<open>api k\<close>, either the error text (\<open>Inl\<close>) or the id of the new chat message (\<open>Inr\<close>).
  A kind that is not uploaded is marked delivered and the loop goes on (\<^verbatim>\<open>continue\<close>);
  after a failed upload the loop ends (\<^verbatim>\<open>break\<close>).
\<close>

fun drain :: "lib \<Rightarrow> (nat \<Rightarrow> string + int) \<Rightarrow> int \<Rightarrow> int \<Rightarrow> string \<Rightarrow> MessageRecord list \<Rightarrow> world \<Rightarrow> world" where
  "drain L api groupID topicID sessName [] w = w"
| "drain L api groupID topicID sessName (msg # rest) w =
     (if isUploadType (Type msg) then
        (let html = formatHTML L sessName msg;
             w1 = w \<lparr> uploads := uploads w @ [(groupID, topicID, html)] \<rparr>
         in case api (length (uploads w)) of
              Inl errMsg \<Rightarrow> onSendFailed L groupID topicID sessName msg errMsg w1
            | Inr tgMsgID \<Rightarrow>
                drain L api groupID topicID sessName rest
                  (logEvent sessName ''send_ok'' ''listener'' (ID msg)
                     (''tg_msg_id='' @ showInt tgMsgID)
                     (doMarkDelivered (ID msg) tgMsgID w1)))
      else drain L api groupID topicID sessName rest (doMarkDelivered (ID msg) 0 w))"

definition deliverSession :: "lib \<Rightarrow> (nat \<Rightarrow> string + int) \<Rightarrow> Config \<Rightarrow> string \<Rightarrow> world \<Rightarrow> world" where
  "deliverSession L api config sessName w =
     (case map_of (Sessions config) sessName of
        Some (Some info) \<Rightarrow>
          (if TopicID info = 0 \<or> GroupID config = 0 then w
           else drain L api (GroupID config) (TopicID info) sessName
                  (findPending sessName (store w)) w)
      | _ \<Rightarrow> w)"

text \<open>
  One pass of the outer \<^verbatim>\<open>for\<close> loop after a tick or a signal, with the configuration
  as reloaded at its start.
\<close>

definition deliveryCycle :: "lib \<Rightarrow> (nat \<Rightarrow> string + int) \<Rightarrow> Config \<Rightarrow> world \<Rightarrow> world" where
  "deliveryCycle L api config w = fold (deliverSession L api config) (allSessions (store w)) w"


subsection \<open>Lookups after updates\<close>

lemma find_distinct_key:
  "distinct (map f xs) \<Longrightarrow> x \<in> set xs \<Longrightarrow> find (\<lambda>r. f r = f x) xs = Some x"
  by (induction xs) (auto simp: image_iff)

lemma find_map_keep_id:
  "(\<And>r. col_id (f r) = col_id r) \<Longrightarrow>
     find (\<lambda>r. col_id r = i) (map f rows) = map_option f (find (\<lambda>r. col_id r = i) rows)"
  by (induction rows) auto

lemma findPending_Some:
  "findPending s d = msg # rest \<Longrightarrow> \<exists>rows. d = Some rows"
  by (cases d) (auto simp: findPending_def)

lemma findPending_mem:
  assumes "m \<in> set (findPending s (Some rows))"
  shows "\<exists>r \<in> set rows. m = rowToRecord r \<and> isPendingRow s r"
  using assms by (auto simp: findPending_def)

lemma lookupRow_pending:
  assumes "m \<in> set (findPending s (Some rows))" and "distinct (map col_id rows)"
  shows "\<exists>r. lookupRow (ID m) (Some rows) = Some r \<and> m = rowToRecord r \<and> isPendingRow s r"
proof -
  from findPending_mem [OF assms(1)] obtain r where r: "r \<in> set rows" "m = rowToRecord r"
    "isPendingRow s r" by blast
  have "ID m = col_id r" using r(2) by (simp add: rowToRecord_def)
  then have "lookupRow (ID m) (Some rows) = Some r"
    using find_distinct_key [OF assms(2) r(1)] by (simp add: lookupRow_def rowsOf_def)
  with r show ?thesis by blast
qed

lemma lookupRow_incRetry:
  "lookupRow i (incRetry j (Some rows)) =
     map_option (\<lambda>r. if col_id r = j then r \<lparr> col_retry_count := col_retry_count r + 1 \<rparr> else r)
       (lookupRow i (Some rows))"
  by (simp add: lookupRow_def rowsOf_def incRetry_def find_map_keep_id)

lemma lookupRow_markDelivered:
  "lookupRow i (snd (markDelivered j ext (Some rows))) =
     map_option (\<lambda>r. if col_id r = j then r \<lparr> col_tg_delivered := 1, col_tg_msg_id := ext \<rparr> else r)
       (lookupRow i (Some rows))"
  by (simp add: lookupRow_def rowsOf_def markDelivered_def find_map_keep_id)

lemma incRetry_open: "\<exists>rows'. incRetry j (Some rows) = Some rows'"
  by (simp add: incRetry_def)

lemma markDelivered_open: "\<exists>rows'. snd (markDelivered j ext (Some rows)) = Some rows'"
  by (simp add: markDelivered_def)

lemma drain_failed:
  assumes "isUploadType (Type msg)" and "api (length (uploads w)) = Inl errMsg"
  shows "drain L api g t s (msg # rest) w =
           onSendFailed L g t s msg errMsg (w \<lparr> uploads := uploads w @ [(g, t, formatHTML L s msg)] \<rparr>)"
  using assms by (simp add: Let_def)

lemma uploads_onSendFailed: "uploads (onSendFailed L g t s msg e w) = uploads w"
  by (simp add: onSendFailed_def Let_def sendMessage_def doMarkDelivered_def logEvent_def
      doIncRetry_def split: option.splits)

lemma notices_onSendFailed:
  "notices (onSendFailed L g t s msg e w) =
     (if isPermanentError L e then notices w @ [(g, t, droppedPermanentText e)]
      else if RetryCount msg + 1 \<ge> maxRetries
        then notices w @ [(g, t, droppedRetriesText (RetryCount msg + 1) e)]
      else if RetryCount msg + 1 \<ge> 2
        then notices w @ [(g, t, sendFailedText (RetryCount msg + 1) e)]
      else notices w)"
  by (simp add: onSendFailed_def Let_def sendMessage_def doMarkDelivered_def logEvent_def
      doIncRetry_def split: option.splits)

lemma store_onSendFailed:
  "store (onSendFailed L g t s msg e w) =
     (if isPermanentError L e \<or> RetryCount msg + 1 \<ge> maxRetries
      then snd (markDelivered (ID msg) 0 (incRetry (ID msg) (store w)))
      else incRetry (ID msg) (store w))"
  by (simp add: onSendFailed_def Let_def sendMessage_def doMarkDelivered_def logEvent_def
      doIncRetry_def split: option.splits)

subsection \<open>The pending rows after a failed upload\<close>




lemma filter_map_drop:
  "(\<forall>r \<in> set rows. col_id r = j \<longrightarrow> \<not> P (u r)) \<Longrightarrow>
   (\<forall>r \<in> set rows. col_id r \<noteq> j \<longrightarrow> u r = r) \<Longrightarrow>
   filter P (map u rows) = filter (\<lambda>r. col_id r \<noteq> j \<and> P r) rows"
  by (induction rows) auto

lemma sort_filter_drop:
  "sort_key k (filter (\<lambda>r. col_id r \<noteq> j \<and> P r) rows) =
     filter (\<lambda>r. col_id r \<noteq> j) (sort_key k (filter P rows))"
proof -
  have "filter (\<lambda>r. col_id r \<noteq> j \<and> P r) rows = filter (\<lambda>r. col_id r \<noteq> j) (filter P rows)"
    by (simp add: conj_commute)
  then show ?thesis by (simp only: filter_sort)
qed

lemma distinct_pending_ids:
  assumes "distinct (map col_id rows)"
  shows "distinct (map ID (findPending s (Some rows)))"
proof -
  have e: "map ID (findPending s (Some rows)) =
      map col_id (sort_key col_created_at (filter (isPendingRow s) rows))"
    by (simp add: findPending_def rowToRecord_def comp_def)
  have "mset (map col_id (sort_key col_created_at (filter (isPendingRow s) rows))) =
      mset (map col_id (filter (isPendingRow s) rows))"
    by simp
  moreover have "distinct (map col_id (filter (isPendingRow s) rows))"
    using assms by (rule distinct_map_filter)
  ultimately have "distinct (map col_id (sort_key col_created_at (filter (isPendingRow s) rows)))"
    by (metis mset_eq_imp_distinct_iff)
  with e show ?thesis by simp
qed

lemma unique_id_row:
  assumes "distinct (map col_id rows)" "r \<in> set rows" "r' \<in> set rows" "col_id r = col_id r'"
  shows "r = r'"
  using assms by (meson distinct_map inj_onD)

text \<open>The pending list after the head row was dropped from the pending set.\<close>

lemma pending_drop_head:
  assumes pend: "findPending s (Some rows) = msg # rest"
    and dist: "distinct (map col_id rows)"
    and gone: "\<forall>r \<in> set rows. col_id r = ID msg \<longrightarrow> \<not> isPendingRow s (u r)"
    and same: "\<forall>r \<in> set rows. col_id r \<noteq> ID msg \<longrightarrow> u r = r"
  shows "findPending s (Some (map u rows)) = rest"
proof -
  let ?S = "sort_key col_created_at (filter (isPendingRow s) rows)"
  have S: "map rowToRecord ?S = msg # rest"
    using pend by (simp add: findPending_def)
  have "findPending s (Some (map u rows)) =
      map rowToRecord (filter (\<lambda>r. col_id r \<noteq> ID msg) ?S)"
    by (simp add: findPending_def filter_map_drop [OF gone same] sort_filter_drop)
  also have "\<dots> = filter (\<lambda>m. ID m \<noteq> ID msg) (map rowToRecord ?S)"
    by (simp add: filter_map comp_def rowToRecord_def)
  also have "\<dots> = filter (\<lambda>m. ID m \<noteq> ID msg) rest"
    by (simp add: S)
  also have "\<dots> = rest"
  proof -
    have "distinct (map ID (msg # rest))"
      using distinct_pending_ids [OF dist, of s] pend by simp
    then have "\<forall>m \<in> set rest. ID m \<noteq> ID msg" by (auto simp: image_iff)
    then show ?thesis by simp
  qed
  finally show ?thesis .
qed


subsection \<open>A failed upload that is not permanent\<close>

lemma lookupRow_id: "lookupRow i d = Some r \<Longrightarrow> col_id r = i"
  by (auto simp: lookupRow_def find_Some_iff)

lemma lookupRow_store_failed_other:
  assumes "i \<noteq> ID msg" and "store w = Some rows"
  shows "lookupRow i (store (onSendFailed L g t s msg e w)) = lookupRow i (store w)"
proof -
  obtain rows1 where r1: "incRetry (ID msg) (Some rows) = Some rows1"
    using incRetry_open by blast
  have a: "lookupRow i (Some rows1) = lookupRow i (Some rows)"
    using lookupRow_incRetry [of i "ID msg" rows] assms(1)
    by (cases "lookupRow i (Some rows)") (auto simp: r1 dest: lookupRow_id)
  have b: "lookupRow i (snd (markDelivered (ID msg) 0 (Some rows1))) = lookupRow i (Some rows1)"
    using lookupRow_markDelivered [of i "ID msg" 0 rows1] assms(1)
    by (cases "lookupRow i (Some rows1)") (auto dest: lookupRow_id)
  show ?thesis
    using a b by (simp add: store_onSendFailed assms(2) r1)
qed


subsection \<open>Concrete runs\<close>

text \<open>
  A library instance for concrete runs (ASCII lowering, \<^verbatim>\<open>markdownToHTML\<close> as the identity),
  an undelivered terminal prompt row, and a world with an open store and nothing sent.
\<close>

definition exLib :: lib where
  "exLib = \<lparr> ToLower = asciiLower, markdownToHTML = (\<lambda>s. s) \<rparr>"

definition exRow :: "string \<Rightarrow> string \<Rightarrow> int \<Rightarrow> int \<Rightarrow> msg_row" where
  "exRow i s retry ts =
     \<lparr> col_id = i, col_session = s, col_type = ''user_prompt'', col_text = ''hi'',
       col_origin = ''terminal'', col_tg_delivered = 0, col_tg_msg_id = 0,
       col_retry_count = retry, col_created_at = ts \<rparr>"

definition exWorld :: "msg_row list \<Rightarrow> world" where
  "exWorld rows = \<lparr> store = Some rows, events = [], uploads = [], notices = [] \<rparr>"



subsection \<open>A failed upload that is permanent\<close>

text \<open>
  Claim C2, as the code has it. The head \<open>msg\<close> of the pending rows of a session fails to
  upload with a permanent error. The loop marks the row delivered with external id 0 (its
  retry count grown by one), sends the notice "Message dropped (permanent error): ..." and
  then leaves the loop over the session's rows (the \<^verbatim>\<open>break\<close> after the policy applies to
  every failure): one upload was attempted, no other row was touched, and the rows after
  \<open>msg\<close> are exactly the session's pending rows for a later cycle.
\<close>

theorem deliveryLoop_permanent_failure:
  assumes pend: "findPending s (store w) = msg # rest"
    and dist: "distinct (map col_id (rowsOf (store w)))"
    and up: "isUploadType (Type msg)"
    and fail: "api (length (uploads w)) = Inl errMsg"
    and perm: "isPermanentError L errMsg"
  shows "let w' = drain L api g t s (findPending s (store w)) w
         in uploads w' = uploads w @ [(g, t, formatHTML L s msg)]
          \<and> notices w' = notices w @ [(g, t, droppedPermanentText errMsg)]
          \<and> (\<exists>r. lookupRow (ID msg) (store w) = Some r
                \<and> lookupRow (ID msg) (store w') =
                    Some (r \<lparr> col_retry_count := col_retry_count r + 1,
                             col_tg_delivered := 1, col_tg_msg_id := 0 \<rparr>))
          \<and> (\<forall>i. i \<noteq> ID msg \<longrightarrow> lookupRow i (store w') = lookupRow i (store w))
          \<and> findPending s (store w') = rest"
proof -
  let ?w1 = "w \<lparr> uploads := uploads w @ [(g, t, formatHTML L s msg)] \<rparr>"
  define wf where "wf = drain L api g t s (findPending s (store w)) w"
  obtain rows where rows: "store w = Some rows"
    using findPending_Some [OF pend] by blast
  have pend': "findPending s (Some rows) = msg # rest" using pend rows by simp
  have dist': "distinct (map col_id rows)" using dist rows by (simp add: rowsOf_def)
  have w': "wf = onSendFailed L g t s msg errMsg ?w1"
    using drain_failed [where api = api and w = w, OF up fail] by (simp add: pend wf_def)
  have st1: "store ?w1 = Some rows" using rows by simp
  have "msg \<in> set (findPending s (Some rows))" using pend' by simp
  from lookupRow_pending [OF this dist'] obtain r0 where
    r0: "lookupRow (ID msg) (Some rows) = Some r0" "msg = rowToRecord r0" "isPendingRow s r0"
    by blast
  have id0: "col_id r0 = ID msg" using r0(2) by (simp add: rowToRecord_def)
  obtain rows1 where r1: "incRetry (ID msg) (Some rows) = Some rows1"
    using incRetry_open by blast
  have l1: "lookupRow (ID msg) (Some rows1) = Some (r0 \<lparr> col_retry_count := col_retry_count r0 + 1 \<rparr>)"
    using lookupRow_incRetry [of "ID msg" "ID msg" rows] r0(1) id0 by (simp add: r1)
  have st': "store wf = snd (markDelivered (ID msg) 0 (Some rows1))"
    by (simp add: w' store_onSendFailed perm rows r1)
  have up': "uploads wf = uploads w @ [(g, t, formatHTML L s msg)]"
    by (simp add: w' uploads_onSendFailed)
  have no': "notices wf = notices w @ [(g, t, droppedPermanentText errMsg)]"
    by (simp add: w' notices_onSendFailed perm)
  have "lookupRow (ID msg) (store wf) =
      Some (r0 \<lparr> col_retry_count := col_retry_count r0 + 1, col_tg_delivered := 1, col_tg_msg_id := 0 \<rparr>)"
    using lookupRow_markDelivered [of "ID msg" "ID msg" 0 rows1] l1 id0 by (simp add: st')
  then have row': "\<exists>r. lookupRow (ID msg) (store w) = Some r
                \<and> lookupRow (ID msg) (store wf) =
                    Some (r \<lparr> col_retry_count := col_retry_count r + 1,
                             col_tg_delivered := 1, col_tg_msg_id := 0 \<rparr>)"
    using r0(1) rows by simp
  have other': "\<forall>i. i \<noteq> ID msg \<longrightarrow> lookupRow i (store wf) = lookupRow i (store w)"
    using lookupRow_store_failed_other [OF _ st1] by (simp add: w')
  have pdrop: "findPending s (store wf) = rest"
  proof -
    let ?u = "(\<lambda>r. if col_id r = ID msg then r \<lparr> col_tg_delivered := 1, col_tg_msg_id := 0 \<rparr> else r)
        \<circ> (\<lambda>r. if col_id r = ID msg then r \<lparr> col_retry_count := col_retry_count r + 1 \<rparr> else r)"
    have e: "store wf = Some (map ?u rows)"
      by (simp add: st' r1 [symmetric] incRetry_def markDelivered_def)
    have gone: "\<forall>r \<in> set rows. col_id r = ID msg \<longrightarrow> \<not> isPendingRow s (?u r)"
      by (simp add: isPendingRow_def)
    have same: "\<forall>r \<in> set rows. col_id r \<noteq> ID msg \<longrightarrow> ?u r = r"
      by simp
    show ?thesis
      using pending_drop_head [OF pend' dist' gone same] by (simp only: e)
  qed
  show ?thesis
    unfolding Let_def wf_def [symmetric]
    using up' row' other' no' pdrop by simp
qed

text \<open>
  A configuration binding session \<open>b\<close> to thread 7 of group 100, and a chat API that
  answers the first upload with "chat not found" and every later one with message id 42.
\<close>

definition exConfig :: Config where
  "exConfig = \<lparr> ChatID = 1, GroupID = 100,
      Sessions = [(''b'', Some \<lparr> TopicID = 7, Path = ''/p'', WindowID = ''@1'', ClaudeSessionID = '''' \<rparr>)] \<rparr>"

definition exApi :: "nat \<Rightarrow> string + int" where
  "exApi k = (if k = 0 then Inl ''Bad Request: chat not found'' else Inr 42)"

text \<open>The scenario "permanent failure drops and notifies" of the spec, with a second row.\<close>

theorem deliveryLoop_permanent_failure_witness:
  "uploads (drain exLib exApi 100 7 ''b''
      (findPending ''b'' (store (exWorld [exRow ''m1'' ''b'' 0 10, exRow ''m2'' ''b'' 0 20])))
      (exWorld [exRow ''m1'' ''b'' 0 10, exRow ''m2'' ''b'' 0 20]))
     = [(100, 7, formatHTML exLib ''b'' (rowToRecord (exRow ''m1'' ''b'' 0 10)))]
   \<and> notices (drain exLib exApi 100 7 ''b''
      (findPending ''b'' (store (exWorld [exRow ''m1'' ''b'' 0 10, exRow ''m2'' ''b'' 0 20])))
      (exWorld [exRow ''m1'' ''b'' 0 10, exRow ''m2'' ''b'' 0 20]))
     = [(100, 7, [CHR 0xE2, CHR 0x9D, CHR 0x8C]
           @ '' Message dropped (permanent error): Bad Request: chat not found'')]
   \<and> findPending ''b'' (store (drain exLib exApi 100 7 ''b''
      (findPending ''b'' (store (exWorld [exRow ''m1'' ''b'' 0 10, exRow ''m2'' ''b'' 0 20])))
      (exWorld [exRow ''m1'' ''b'' 0 10, exRow ''m2'' ''b'' 0 20])))
     = [rowToRecord (exRow ''m2'' ''b'' 0 20)]"
proof -
  let ?w = "exWorld [exRow ''m1'' ''b'' 0 10, exRow ''m2'' ''b'' 0 20]"
  have h1: "findPending ''b'' (store ?w) =
      rowToRecord (exRow ''m1'' ''b'' 0 10) # [rowToRecord (exRow ''m2'' ''b'' 0 20)]"
    by (simp add: exWorld_def exRow_def findPending_def isPendingRow_def maxRetries_def)
  have h2: "distinct (map col_id (rowsOf (store ?w)))"
    by (simp add: exWorld_def exRow_def rowsOf_def)
  have h3: "isUploadType (Type (rowToRecord (exRow ''m1'' ''b'' 0 10)))"
    by (simp add: isUploadType_def rowToRecord_def exRow_def)
  have h4: "exApi (length (uploads ?w)) = Inl ''Bad Request: chat not found''"
    by (simp add: exApi_def exWorld_def)
  have h5: "isPermanentError exLib ''Bad Request: chat not found''"
    by (simp add: isPermanentError_def exLib_def asciiLower_def permanent_def)
  have t: "droppedPermanentText ''Bad Request: chat not found'' =
      [CHR 0xE2, CHR 0x9D, CHR 0x8C] @ '' Message dropped (permanent error): Bad Request: chat not found''"
    by (simp add: droppedPermanentText_def)
  have e: "uploads ?w = []" "notices ?w = []"
    by (simp_all add: exWorld_def)
  note inst = deliveryLoop_permanent_failure [where api = exApi and g = 100 and t = 7,
      OF h1 h2 h3 h4 h5, unfolded Let_def]
  show ?thesis
    using inst by (simp add: t e)
qed

text \<open>
  Claim C2 as stated (the loop continues with the remaining rows of the session in the
  same cycle) fails: two rows are pending for session \<open>b\<close>, the upload of the first fails
  permanently and an upload of the second would succeed, yet after the whole cycle one
  upload was attempted and the second row is still undelivered.
\<close>

theorem deliveryLoop_permanent_no_continue:
  "findPending ''b'' (store (exWorld [exRow ''m1'' ''b'' 0 10, exRow ''m2'' ''b'' 0 20]))
     = [rowToRecord (exRow ''m1'' ''b'' 0 10), rowToRecord (exRow ''m2'' ''b'' 0 20)]
   \<and> exApi 0 = Inl ''Bad Request: chat not found''
   \<and> isPermanentError exLib ''Bad Request: chat not found''
   \<and> exApi 1 = Inr 42
   \<and> length (uploads (deliveryCycle exLib exApi exConfig
        (exWorld [exRow ''m1'' ''b'' 0 10, exRow ''m2'' ''b'' 0 20]))) = 1
   \<and> isDelivered ''m1'' (store (deliveryCycle exLib exApi exConfig
        (exWorld [exRow ''m1'' ''b'' 0 10, exRow ''m2'' ''b'' 0 20])))
   \<and> \<not> isDelivered ''m2'' (store (deliveryCycle exLib exApi exConfig
        (exWorld [exRow ''m1'' ''b'' 0 10, exRow ''m2'' ''b'' 0 20])))"
proof -
  let ?w = "exWorld [exRow ''m1'' ''b'' 0 10, exRow ''m2'' ''b'' 0 20]"
  have h1: "findPending ''b'' (store ?w) =
      [rowToRecord (exRow ''m1'' ''b'' 0 10), rowToRecord (exRow ''m2'' ''b'' 0 20)]"
    by (simp add: exWorld_def exRow_def findPending_def isPendingRow_def maxRetries_def)
  have h5: "isPermanentError exLib ''Bad Request: chat not found''"
    by (simp add: isPermanentError_def exLib_def asciiLower_def permanent_def)
  have a: "allSessions (store ?w) = [''b'']"
    by (simp add: allSessions_def exWorld_def exRow_def)
  have c: "deliveryCycle exLib exApi exConfig ?w =
      drain exLib exApi 100 7 ''b'' (findPending ''b'' (store ?w)) ?w"
    by (simp add: deliveryCycle_def a deliverSession_def exConfig_def)
  have d: "drain exLib exApi 100 7 ''b'' (findPending ''b'' (store ?w)) ?w =
      onSendFailed exLib 100 7 ''b'' (rowToRecord (exRow ''m1'' ''b'' 0 10))
        ''Bad Request: chat not found''
        (?w \<lparr> uploads := uploads ?w @ [(100, 7, formatHTML exLib ''b'' (rowToRecord (exRow ''m1'' ''b'' 0 10)))] \<rparr>)"
    unfolding h1
    by (rule drain_failed) (simp_all add: isUploadType_def rowToRecord_def exRow_def exApi_def exWorld_def)
  have u: "length (uploads (deliveryCycle exLib exApi exConfig ?w)) = 1"
    by (simp only: c d uploads_onSendFailed) (simp add: exWorld_def)
  have s: "store (deliveryCycle exLib exApi exConfig ?w) =
      snd (markDelivered ''m1'' 0 (incRetry ''m1'' (Some [exRow ''m1'' ''b'' 0 10, exRow ''m2'' ''b'' 0 20])))"
    by (simp only: c d store_onSendFailed h5) (simp add: exWorld_def rowToRecord_def exRow_def)
  have d1: "isDelivered ''m1'' (store (deliveryCycle exLib exApi exConfig ?w))"
    unfolding s by (simp add: isDelivered_def markDelivered_def incRetry_def exRow_def)
  have d2: "\<not> isDelivered ''m2'' (store (deliveryCycle exLib exApi exConfig ?w))"
    unfolding s by (simp add: isDelivered_def markDelivered_def incRetry_def exRow_def)
  show ?thesis
    using h1 h5 u d1 d2 by (simp add: exApi_def)
qed


section \<open>The retry cap as an invariant of the system\<close>

text \<open>
  The writers of the message table: \<^verbatim>\<open>appendMessage\<close>, called by the hook processes and
  the poller, and the delivery loop, the only caller of \<^verbatim>\<open>incRetry\<close> and
  \<^verbatim>\<open>markDelivered\<close>. A run of the system is a sequence of appends and delivery cycles,
  each cycle with the answers of the chat API and the configuration it sees; a cycle is
  taken as one step.
\<close>

datatype action = Append int MessageRecord | Cycle "nat \<Rightarrow> string + int" Config

fun step :: "lib \<Rightarrow> action \<Rightarrow> world \<Rightarrow> world" where
  "step L (Append now rec) w = w \<lparr> store := snd (appendMessage now rec (store w)) \<rparr>"
| "step L (Cycle api config) w = deliveryCycle L api config w"

definition run :: "lib \<Rightarrow> action list \<Rightarrow> world \<Rightarrow> world" where
  "run L acts w = fold (step L) acts w"

text \<open>
  The invariant of the table: ids are unique (\<^verbatim>\<open>id TEXT PRIMARY KEY\<close>) and no retry count
  exceeds the cap. \<open>keeps rows rows'\<close>: every row of \<open>rows\<close> is still in \<open>rows'\<close>, its retry
  count not smaller.
\<close>

definition tableInv :: "messages \<Rightarrow> bool" where
  "tableInv rows \<longleftrightarrow>
     distinct (map col_id rows) \<and> (\<forall>r \<in> set rows. col_retry_count r \<le> maxRetries)"

definition keeps :: "messages \<Rightarrow> messages \<Rightarrow> bool" where
  "keeps rows rows' \<longleftrightarrow>
     (\<forall>r \<in> set rows. \<exists>r' \<in> set rows'. col_id r' = col_id r
        \<and> col_retry_count r \<le> col_retry_count r')"

lemma keeps_refl: "keeps rows rows"
  by (auto simp: keeps_def)

lemma keeps_trans: "keeps a b \<Longrightarrow> keeps b c \<Longrightarrow> keeps a c"
  unfolding keeps_def by (metis order_trans)

lemma keeps_map:
  assumes "\<And>r. col_id (f r) = col_id r" and "\<And>r. col_retry_count r \<le> col_retry_count (f r)"
  shows "keeps rows (map f rows)"
  unfolding keeps_def using assms by auto

lemma rowsOf_incRetry:
  "rowsOf (incRetry j d) =
     map (\<lambda>r. if col_id r = j then r \<lparr> col_retry_count := col_retry_count r + 1 \<rparr> else r) (rowsOf d)"
  by (cases d) (simp_all add: incRetry_def rowsOf_def)

lemma rowsOf_markDelivered:
  "rowsOf (snd (markDelivered j ext d)) =
     map (\<lambda>r. if col_id r = j then r \<lparr> col_tg_delivered := 1, col_tg_msg_id := ext \<rparr> else r) (rowsOf d)"
  by (cases d) (simp_all add: markDelivered_def rowsOf_def)

lemma map_col_id_upsert:
  "map col_id (upsert ex rows) =
     (if col_id ex \<in> set (map col_id rows) then map col_id rows else map col_id rows @ [col_id ex])"
  by (induction rows) (auto simp: onConflict_def)

lemma retry_upsert:
  "r' \<in> set (upsert ex rows) \<Longrightarrow>
     col_retry_count r' = col_retry_count ex \<or> (\<exists>r \<in> set rows. col_retry_count r' = col_retry_count r)"
  by (induction rows) (auto simp: onConflict_def split: if_splits)

lemma keeps_upsert: "keeps rows (upsert ex rows)"
proof -
  have "r \<in> set rows \<Longrightarrow> \<exists>r' \<in> set (upsert ex rows). col_id r' = col_id r
        \<and> col_retry_count r \<le> col_retry_count r'" for r
    by (induction rows) (auto simp: onConflict_def)
  then show ?thesis by (simp add: keeps_def)
qed

lemma tableInv_upsert:
  assumes "tableInv rows" and "col_retry_count ex = 0"
  shows "tableInv (upsert ex rows)"
proof -
  have "distinct (map col_id (upsert ex rows))"
    using assms(1) by (simp add: map_col_id_upsert tableInv_def)
  moreover have "\<forall>r' \<in> set (upsert ex rows). col_retry_count r' \<le> maxRetries"
    using assms retry_upsert [of _ ex rows] by (fastforce simp: tableInv_def maxRetries_def)
  ultimately show ?thesis by (simp add: tableInv_def)
qed

lemma appendMessage_inv:
  assumes "tableInv (rowsOf d)"
  shows "tableInv (rowsOf (snd (appendMessage now rec d)))
       \<and> keeps (rowsOf d) (rowsOf (snd (appendMessage now rec d)))"
proof (cases d)
  case None
  then show ?thesis by (simp add: appendMessage_def rowsOf_def tableInv_def keeps_def)
next
  case (Some rows)
  have "col_retry_count (valuesRow rec ts) = 0" for ts by (simp add: valuesRow_def)
  then show ?thesis
    using assms Some by (simp add: appendMessage_def rowsOf_def Let_def tableInv_upsert keeps_upsert)
qed

lemma tableInv_map:
  assumes "tableInv rows" and "\<And>r. col_id (f r) = col_id r"
    and "\<forall>r \<in> set rows. col_retry_count (f r) \<le> maxRetries"
  shows "tableInv (map f rows)"
proof -
  have "col_id \<circ> f = col_id" using assms(2) by (auto simp: fun_eq_iff)
  then have "map col_id (map f rows) = map col_id rows" by simp
  then have "distinct (map col_id (map f rows))"
    using assms(1) by (simp only: tableInv_def)
  moreover have "\<forall>r' \<in> set (map f rows). col_retry_count r' \<le> maxRetries"
    using assms(3) by simp
  ultimately show ?thesis by (simp only: tableInv_def)
qed

lemma markDelivered_inv:
  assumes "tableInv (rowsOf d)"
  shows "tableInv (rowsOf (snd (markDelivered j ext d)))"
  unfolding rowsOf_markDelivered
  using assms by (intro tableInv_map) (auto simp: tableInv_def)

lemma markDelivered_keeps: "keeps (rowsOf d) (rowsOf (snd (markDelivered j ext d)))"
  unfolding rowsOf_markDelivered by (rule keeps_map) auto

lemma incRetry_keeps: "keeps (rowsOf d) (rowsOf (incRetry j d))"
  unfolding rowsOf_incRetry by (rule keeps_map) auto

lemma incRetry_inv:
  assumes "tableInv (rowsOf d)"
    and "\<forall>r \<in> set (rowsOf d). col_id r = j \<longrightarrow> col_retry_count r < maxRetries"
  shows "tableInv (rowsOf (incRetry j d))"
  unfolding rowsOf_incRetry
  using assms by (intro tableInv_map) (auto simp: tableInv_def)

text \<open>The rows of a pending list are below the cap in the table they were read from.\<close>

definition belowCap :: "MessageRecord list \<Rightarrow> messages \<Rightarrow> bool" where
  "belowCap ms rows \<longleftrightarrow>
     (\<forall>m \<in> set ms. \<forall>r \<in> set rows. col_id r = ID m \<longrightarrow> col_retry_count r < maxRetries)"

lemma belowCap_findPending:
  assumes "distinct (map col_id (rowsOf d))"
  shows "belowCap (findPending s d) (rowsOf d)"
proof (cases d)
  case None
  then show ?thesis by (simp add: findPending_def belowCap_def)
next
  case (Some rows)
  have dist: "distinct (map col_id rows)" using assms Some by (simp add: rowsOf_def)
  have "col_retry_count r < maxRetries"
    if m: "m \<in> set (findPending s (Some rows))" and r: "r \<in> set rows" and i: "col_id r = ID m"
    for m r
  proof -
    from findPending_mem [OF m] obtain r0 where
      r0: "r0 \<in> set rows" "m = rowToRecord r0" "isPendingRow s r0" by blast
    have "col_id r0 = col_id r" using r0(2) i by (simp add: rowToRecord_def)
    then have "r0 = r" using unique_id_row [OF dist r0(1) r] by simp
    then show ?thesis using r0(3) by (simp add: isPendingRow_def)
  qed
  then show ?thesis using Some by (auto simp: belowCap_def rowsOf_def)
qed

lemma belowCap_tl: "belowCap (m # ms) rows \<Longrightarrow> belowCap ms rows"
  by (simp add: belowCap_def)

lemma belowCap_map:
  assumes "belowCap ms rows" and "\<And>r. col_id (f r) = col_id r"
    and "\<And>r. col_retry_count (f r) = col_retry_count r"
  shows "belowCap ms (map f rows)"
  using assms by (auto simp: belowCap_def)

lemma store_logEvent: "store (logEvent a b c e f w) = store w"
  by (simp add: logEvent_def split: option.splits)

lemma onSendFailed_inv:
  assumes inv: "tableInv (rowsOf (store w))" and cap: "belowCap (msg # rest) (rowsOf (store w))"
  shows "tableInv (rowsOf (store (onSendFailed L g t s msg e w)))
       \<and> keeps (rowsOf (store w)) (rowsOf (store (onSendFailed L g t s msg e w)))"
proof -
  have c: "\<forall>r \<in> set (rowsOf (store w)). col_id r = ID msg \<longrightarrow> col_retry_count r < maxRetries"
    using cap by (simp add: belowCap_def)
  have i1: "tableInv (rowsOf (incRetry (ID msg) (store w)))"
    using incRetry_inv [OF inv c] .
  have k1: "keeps (rowsOf (store w)) (rowsOf (incRetry (ID msg) (store w)))"
    by (rule incRetry_keeps)
  have i2: "tableInv (rowsOf (snd (markDelivered (ID msg) 0 (incRetry (ID msg) (store w)))))"
    using markDelivered_inv [OF i1] .
  have k2: "keeps (rowsOf (store w))
      (rowsOf (snd (markDelivered (ID msg) 0 (incRetry (ID msg) (store w)))))"
    using keeps_trans [OF k1 markDelivered_keeps] .
  show ?thesis
    using i1 k1 i2 k2 by (simp add: store_onSendFailed)
qed

lemma drain_inv:
  assumes "tableInv (rowsOf (store w))" and "belowCap ms (rowsOf (store w))"
  shows "tableInv (rowsOf (store (drain L api g t s ms w)))
       \<and> keeps (rowsOf (store w)) (rowsOf (store (drain L api g t s ms w)))"
  using assms
proof (induction ms arbitrary: w)
  case Nil
  then show ?case by (simp add: keeps_refl)
next
  case (Cons msg rest)
  let ?md = "\<lambda>ext r. if col_id r = ID msg then r \<lparr> col_tg_delivered := 1, col_tg_msg_id := ext \<rparr> else r"
  have step: "tableInv (rowsOf (store w')) \<and> belowCap rest (rowsOf (store w'))
      \<and> keeps (rowsOf (store w)) (rowsOf (store w'))"
    if "store w' = snd (markDelivered (ID msg) ext (store w))" for w' ext
  proof -
    have "belowCap rest (map (?md ext) (rowsOf (store w)))"
      using belowCap_tl [OF Cons.prems(2)] by (rule belowCap_map) auto
    then show ?thesis
      using that markDelivered_inv [OF Cons.prems(1)] markDelivered_keeps
      by (simp add: rowsOf_markDelivered)
  qed
  show ?case
  proof (cases "isUploadType (Type msg)")
    case False
    let ?w' = "doMarkDelivered (ID msg) 0 w"
    have s: "store ?w' = snd (markDelivered (ID msg) 0 (store w))"
      by (simp add: doMarkDelivered_def)
    from step [OF s] Cons.IH [of ?w']
    have "tableInv (rowsOf (store (drain L api g t s rest ?w')))
        \<and> keeps (rowsOf (store w)) (rowsOf (store (drain L api g t s rest ?w')))"
      using keeps_trans by blast
    then show ?thesis using False by simp
  next
    case True
    let ?w1 = "w \<lparr> uploads := uploads w @ [(g, t, formatHTML L s msg)] \<rparr>"
    show ?thesis
    proof (cases "api (length (uploads w))")
      case (Inl errMsg)
      have "drain L api g t s (msg # rest) w = onSendFailed L g t s msg errMsg ?w1"
        using True Inl by (simp add: Let_def)
      moreover have "tableInv (rowsOf (store ?w1))" "belowCap (msg # rest) (rowsOf (store ?w1))"
        using Cons.prems by simp_all
      ultimately show ?thesis
        using onSendFailed_inv [of ?w1 msg rest L g t s errMsg] by simp
    next
      case (Inr tgMsgID)
      let ?w' = "logEvent s ''send_ok'' ''listener'' (ID msg) (''tg_msg_id='' @ showInt tgMsgID)
                     (doMarkDelivered (ID msg) tgMsgID ?w1)"
      have s: "store ?w' = snd (markDelivered (ID msg) tgMsgID (store w))"
        by (simp add: store_logEvent doMarkDelivered_def)
      have d: "drain L api g t s (msg # rest) w = drain L api g t s rest ?w'"
        using True Inr by (simp add: Let_def)
      from step [OF s] Cons.IH [of ?w']
      have "tableInv (rowsOf (store (drain L api g t s rest ?w')))
          \<and> keeps (rowsOf (store w)) (rowsOf (store (drain L api g t s rest ?w')))"
        using keeps_trans by blast
      then show ?thesis by (simp only: d)
    qed
  qed
qed

lemma deliverSession_inv:
  assumes "tableInv (rowsOf (store w))"
  shows "tableInv (rowsOf (store (deliverSession L api config sessName w)))
       \<and> keeps (rowsOf (store w)) (rowsOf (store (deliverSession L api config sessName w)))"
proof -
  have "belowCap (findPending sessName (store w)) (rowsOf (store w))"
    using assms by (intro belowCap_findPending) (simp add: tableInv_def)
  from drain_inv [OF assms this] show ?thesis
    by (auto simp: deliverSession_def keeps_refl assms split: option.splits)
qed

lemma fold_deliverSession_inv:
  assumes "tableInv (rowsOf (store w))"
  shows "tableInv (rowsOf (store (fold (deliverSession L api config) ss w)))
       \<and> keeps (rowsOf (store w)) (rowsOf (store (fold (deliverSession L api config) ss w)))"
  using assms
proof (induction ss arbitrary: w)
  case Nil
  then show ?case by (simp add: keeps_refl)
next
  case (Cons a ss)
  from deliverSession_inv [OF Cons.prems, of L api config a]
  have a: "tableInv (rowsOf (store (deliverSession L api config a w)))"
    and k: "keeps (rowsOf (store w)) (rowsOf (store (deliverSession L api config a w)))"
    by simp_all
  from Cons.IH [OF a] k show ?case
    using keeps_trans by auto
qed

lemma step_inv:
  assumes "tableInv (rowsOf (store w))"
  shows "tableInv (rowsOf (store (step L a w))) \<and> keeps (rowsOf (store w)) (rowsOf (store (step L a w)))"
proof (cases a)
  case (Append now rec)
  then show ?thesis using appendMessage_inv [OF assms] by simp
next
  case (Cycle api config)
  then show ?thesis using fold_deliverSession_inv [OF assms] by (simp add: deliveryCycle_def)
qed

lemma run_inv:
  assumes "tableInv (rowsOf (store w))"
  shows "tableInv (rowsOf (store (run L acts w))) \<and> keeps (rowsOf (store w)) (rowsOf (store (run L acts w)))"
  using assms
proof (induction acts arbitrary: w)
  case Nil
  then show ?case by (simp add: run_def keeps_refl)
next
  case (Cons a acts)
  from step_inv [OF Cons.prems, of L a]
  have a: "tableInv (rowsOf (store (step L a w)))"
    and k: "keeps (rowsOf (store w)) (rowsOf (store (step L a w)))"
    by simp_all
  from Cons.IH [OF a] k show ?case
    using keeps_trans by (auto simp: run_def)
qed

text \<open>
  Claim C7. From a table with unique ids and retry counts of at most 5 (the empty table
  is one), after any run of appends and delivery cycles every row's retry count is at
  most 5; and a row whose count is 5 is returned by no later pending scan, for any
  session.
\<close>

theorem retry_count_capped:
  assumes dist: "distinct (map col_id (rowsOf (store w)))"
    and le: "\<forall>r \<in> set (rowsOf (store w)). col_retry_count r \<le> 5"
  shows "(\<forall>r' \<in> set (rowsOf (store (run L acts w))). col_retry_count r' \<le> 5)
       \<and> (\<forall>r \<in> set (rowsOf (store w)). col_retry_count r = 5 \<longrightarrow>
            (\<forall>s. \<forall>m \<in> set (findPending s (store (run L acts w))). ID m \<noteq> col_id r))"
proof -
  let ?F = "store (run L acts w)"
  have inv0: "tableInv (rowsOf (store w))"
    using dist le by (simp add: tableInv_def maxRetries_def)
  from run_inv [OF inv0, of L acts]
  have invF: "tableInv (rowsOf ?F)" and k: "keeps (rowsOf (store w)) (rowsOf ?F)"
    by simp_all
  have capF: "\<forall>r' \<in> set (rowsOf ?F). col_retry_count r' \<le> 5"
    using invF by (simp add: tableInv_def maxRetries_def)
  have distF: "distinct (map col_id (rowsOf ?F))"
    using invF by (simp add: tableInv_def)
  have "ID m \<noteq> col_id r"
    if r: "r \<in> set (rowsOf (store w))" and r5: "col_retry_count r = 5"
      and m: "m \<in> set (findPending s ?F)" for r s m
  proof
    assume e: "ID m = col_id r"
    from k r obtain r' where r': "r' \<in> set (rowsOf ?F)" "col_id r' = col_id r"
      "col_retry_count r \<le> col_retry_count r'"
      by (auto simp: keeps_def)
    have "belowCap (findPending s ?F) (rowsOf ?F)"
      using distF by (rule belowCap_findPending)
    then have "col_retry_count r' < maxRetries"
      using m r' e by (auto simp: belowCap_def)
    then show False using r'(3) r5 by (simp add: maxRetries_def)
  qed
  then show ?thesis using capF by blast
qed

text \<open>
  A run on a table holding a row at the cap and a row one failure below it: a cycle
  whose uploads time out, a new row appended, another such cycle.
\<close>

definition exActions :: "action list" where
  "exActions =
     [Cycle (\<lambda>k. Inl ''timeout'') exConfig,
      Append 30 (rowToRecord (exRow ''m3'' ''b'' 0 0)),
      Cycle (\<lambda>k. Inl ''timeout'') exConfig]"

lemma ex_run_counts:
  "map col_retry_count (rowsOf (store (run exLib exActions
       (exWorld [exRow ''m1'' ''b'' 5 10, exRow ''m2'' ''b'' 4 20])))) = [5, 5, 1]"
  by (simp add: run_def exActions_def exWorld_def exRow_def deliveryCycle_def allSessions_def
      deliverSession_def exConfig_def findPending_def isPendingRow_def maxRetries_def
      rowToRecord_def isUploadType_def Let_def onSendFailed_def doIncRetry_def incRetry_def
      logEvent_def isPermanentError_def exLib_def asciiLower_def permanent_def
      doMarkDelivered_def markDelivered_def sendMessage_def appendMessage_def valuesRow_def
      boolToInt_def rowsOf_def)

theorem retry_count_capped_witness:
  "list_all (\<lambda>r. col_retry_count r \<le> 5)
     (rowsOf (store (run exLib exActions (exWorld [exRow ''m1'' ''b'' 5 10, exRow ''m2'' ''b'' 4 20]))))
   \<and> list_all (\<lambda>m. ID m \<noteq> ''m1'')
     (findPending ''b''
        (store (run exLib exActions (exWorld [exRow ''m1'' ''b'' 5 10, exRow ''m2'' ''b'' 4 20]))))
   \<and> map col_retry_count (rowsOf (store (run exLib exActions
       (exWorld [exRow ''m1'' ''b'' 5 10, exRow ''m2'' ''b'' 4 20])))) = [5, 5, 1]"
proof -
  let ?w = "exWorld [exRow ''m1'' ''b'' 5 10, exRow ''m2'' ''b'' 4 20]"
  have r: "rowsOf (store ?w) = [exRow ''m1'' ''b'' 5 10, exRow ''m2'' ''b'' 4 20]"
    by (simp add: exWorld_def rowsOf_def)
  have h1: "distinct (map col_id (rowsOf (store ?w)))"
    unfolding r by (simp add: exRow_def)
  have h2: "\<forall>r \<in> set (rowsOf (store ?w)). col_retry_count r \<le> 5"
    unfolding r by (simp add: exRow_def)
  have s: "col_retry_count (exRow ''m1'' ''b'' 5 10) = 5" "col_id (exRow ''m1'' ''b'' 5 10) = ''m1''"
    by (simp_all add: exRow_def)
  note inst = retry_count_capped [OF h1 h2, of exLib exActions, unfolded r]
  from inst have a: "list_all (\<lambda>r. col_retry_count r \<le> 5) (rowsOf (store (run exLib exActions ?w)))"
    by (simp add: list_all_iff)
  from inst s have b: "list_all (\<lambda>m. ID m \<noteq> ''m1'') (findPending ''b'' (store (run exLib exActions ?w)))"
    by (simp add: list_all_iff)
  show ?thesis using a b ex_run_counts by simp
qed


section \<open>The pre-tool hook's input summary (hook code)\<close>

text \<open>
  Modelled from the spec: the declaration of \<^verbatim>\<open>HookData\<close> is not among the source files.
  The spec's hook input schema names \<open>session_id\<close>, \<open>cwd\<close>, \<open>transcript_path\<close>,
  \<open>tool_name\<close>, \<open>tool_input\<close> (structured by tool) and \<open>prompt\<close>; the fields of the tool
  input are those \<^verbatim>\<open>toolInputSummary\<close> reads.
\<close>

record ToolInputData =
  Command :: string
  FilePath :: string
  OldString :: string
  Pattern :: string
  Description :: string
  Query :: string
  URL :: string

record HookData =
  SessionID :: string
  Cwd :: string
  TranscriptPath :: string
  ToolName :: string
  ToolInput :: ToolInputData
  Prompt :: string

definition truncAt :: nat where
  "truncAt = 80"

text \<open>The closure \<^verbatim>\<open>trunc\<close>: Go's \<^verbatim>\<open>len\<close> and \<^verbatim>\<open>s[:n]\<close> count bytes.\<close>

definition trunc :: "string \<Rightarrow> string" where
  "trunc s = (if length s > truncAt then take truncAt s @ ''...'' else s)"


definition editPreview :: "string \<Rightarrow> string" where
  "editPreview old = (if length old > 40 then take 40 old @ ''...'' else old)"



lemma trunc_short: "length s \<le> 80 \<Longrightarrow> trunc s = s"
  by (simp add: trunc_def truncAt_def)

lemma length_editPreview: "length (editPreview old) \<le> 43"
  by (simp add: editPreview_def)







section \<open>The transcript tailer (hook code)\<close>







fun Split :: "string \<Rightarrow> char \<Rightarrow> string list" where
  "Split [] sep = [[]]"
| "Split (b # bs) sep =
     (if b = sep then [] # Split bs sep
      else (case Split bs sep of [] \<Rightarrow> [[b]] | l # ls \<Rightarrow> (b # l) # ls))"








subsection \<open>What the tailer returns, stated without the index map\<close>







subsection \<open>The index map implements the update of an association list\<close>
























subsection \<open>Concrete transcripts\<close>

























section \<open>The chat poller and the user-prompt hook\<close>

subsection \<open>Effects\<close>

text \<open>
  What the poller and a hook process do besides writing the message table is recorded as
  a trace, in program order: calls of the chat API (\<^verbatim>\<open>answerCallbackQuery\<close>,
  \<^verbatim>\<open>editMessageRemoveKeyboard\<close>, \<^verbatim>\<open>sendMessage\<close>, the download of a file), runs of
  \<^verbatim>\<open>tmux send-keys -t target ...\<close>, calls of \<^verbatim>\<open>time.Sleep\<close> (in microseconds), the
  clearing of the tool state, marker files written or removed in the cache directory (by
  file name), the call of \<^verbatim>\<open>appendMessage\<close> itself, the event rows, and the signal to the
  listener. Lines written to the logs are left out.
\<close>

datatype effect =
    AnswerCallbackQuery string
  | EditMessageRemoveKeyboard int int string
  | ChatMessage int int string
  | SendKeys string "string list"
  | Sleep nat
  | ClearToolState string
  | AppendMessage MessageRecord
  | LogEvent string string string string string
  | WriteFile string
  | RemoveFile string
  | DownloadFile string string
  | EnsureDir string
  | CreateWindow string string
  | SaveConfig
  | NotifyListener

record hub =
  db_of :: db
  effects :: "effect list"

definition emit :: "effect list \<Rightarrow> hub \<Rightarrow> hub" where
  "emit es w = w \<lparr> effects := effects w @ es \<rparr>"

definition doAppendMessage :: "int \<Rightarrow> MessageRecord \<Rightarrow> hub \<Rightarrow> hub" where
  "doAppendMessage now rec w =
     w \<lparr> db_of := snd (appendMessage now rec (db_of w)),
         effects := effects w @ [AppendMessage rec] \<rparr>"

definition doLogEvent :: "string \<Rightarrow> string \<Rightarrow> string \<Rightarrow> string \<Rightarrow> string \<Rightarrow> hub \<Rightarrow> hub" where
  "doLogEvent session eventType source refID detail w =
     (case db_of w of
        None \<Rightarrow> w
      | Some _ \<Rightarrow> emit [LogEvent session eventType source refID detail] w)"

subsection \<open>Sessions and windows\<close>

text \<open>
  \<^verbatim>\<open>getSessionByTopic\<close> ranges over the session map and returns the first name whose
  thread id matches. The windows known to tmux are a parameter: the pairs (window id,
  window name) that \<^verbatim>\<open>tmux list-windows -a\<close> prints, or \<open>None\<close> when the command fails.
\<close>

definition tmuxSafeName :: "string \<Rightarrow> string" where
  "tmuxSafeName name = map (\<lambda>c. if c = CHR ''.'' then CHR ''_'' else c) name"

definition getWindowID :: "Config \<Rightarrow> string \<Rightarrow> string" where
  "getWindowID config sessionName =
     (case map_of (Sessions config) sessionName of
        Some (Some info) \<Rightarrow> WindowID info
      | _ \<Rightarrow> '''')"

fun sessionByTopic :: "(string \<times> SessionInfo option) list \<Rightarrow> int \<Rightarrow> string" where
  "sessionByTopic [] topicID = ''''"
| "sessionByTopic ((name, info) # rest) topicID =
     (case info of
        Some i \<Rightarrow> (if TopicID i = topicID then name else sessionByTopic rest topicID)
      | None \<Rightarrow> sessionByTopic rest topicID)"

definition getSessionByTopic :: "Config \<Rightarrow> int \<Rightarrow> string" where
  "getSessionByTopic config topicID = sessionByTopic (Sessions config) topicID"

definition defaultTmuxSession :: string where
  "defaultTmuxSession = ''ccc''"

definition tmuxTargetByName :: "(string \<times> string) list option \<Rightarrow> string \<Rightarrow> string" where
  "tmuxTargetByName windows windowName =
     (case windows of
        None \<Rightarrow> defaultTmuxSession @ '':'' @ windowName
      | Some ws \<Rightarrow>
          (case find (\<lambda>p. snd p = windowName) ws of
             Some p \<Rightarrow> fst p
           | None \<Rightarrow> defaultTmuxSession @ '':'' @ windowName))"

definition tmuxTargetByID :: "(string \<times> string) list option \<Rightarrow> string \<Rightarrow> string \<Rightarrow> string" where
  "tmuxTargetByID windows windowID windowName =
     (if windowID \<noteq> '''' then windowID else tmuxTargetByName windows windowName)"

definition tmuxWindowExistsByID :: "(string \<times> string) list option \<Rightarrow> string \<Rightarrow> string \<Rightarrow> bool" where
  "tmuxWindowExistsByID windows windowID windowName =
     (case windows of
        None \<Rightarrow> False
      | Some ws \<Rightarrow>
          (if windowID \<noteq> '''' then windowID \<in> set (map fst ws)
           else windowName \<in> set (map snd ws)))"

subsection \<open>Typing into a window\<close>

definition telegramActiveFlag :: "string \<Rightarrow> string" where
  "telegramActiveFlag tmuxName = ''telegram-active-'' @ tmuxName"

definition thinkingFlag :: "string \<Rightarrow> string" where
  "thinkingFlag sessionName = ''thinking-'' @ sessionName"

definition promptAckPath :: "string \<Rightarrow> string" where
  "promptAckPath sessionName = ''prompt-ack-'' @ sessionName"

text \<open>
  What the environment answers while one update or one hook call is handled: the tmux
  windows, the outcome of \<^verbatim>\<open>createTmuxWindow\<close> (error text or new window id), the error
  of the \<^verbatim>\<open>send-keys -l\<close> run and of the download if any, the clock in milliseconds and
  in nanoseconds, \<^verbatim>\<open>os.TempDir()\<close> and the library function \<^verbatim>\<open>filepath.Join\<close>.
\<close>

record poll_env =
  tmuxWindows :: "(string \<times> string) list option"
  createWindowResult :: "string + string"
  sendLiteralError :: "string option"
  downloadError :: "string option"
  nowMilli :: int
  nowNano :: int
  tempDir :: string
  filepathJoin :: "string \<Rightarrow> string \<Rightarrow> string"

definition sendToTmuxWithDelay :: "poll_env \<Rightarrow> string \<Rightarrow> string \<Rightarrow> nat \<Rightarrow> hub \<Rightarrow> string option \<times> hub" where
  "sendToTmuxWithDelay env target msgText delay w =
     (let w1 = (if delay > 0 then emit [Sleep delay] w else w);
          w2 = emit [SendKeys target [''-l'', msgText]] w1
      in case sendLiteralError env of
           Some err \<Rightarrow> (Some err, w2)
         | None \<Rightarrow>
             (None, emit [Sleep 100000, SendKeys target [''C-m''], Sleep 50000,
                          SendKeys target [''C-m'']] w2))"



definition sendToTmuxFromTelegramWithDelay ::
    "poll_env \<Rightarrow> string \<Rightarrow> string \<Rightarrow> string \<Rightarrow> nat \<Rightarrow> hub \<Rightarrow> string option \<times> hub" where
  "sendToTmuxFromTelegramWithDelay env target windowName msgText delay w =
     sendToTmuxWithDelay env target msgText delay (emit [WriteFile (telegramActiveFlag windowName)] w)"

subsection \<open>Free text in a session thread\<close>




subsection \<open>The user-prompt hook\<close>

text \<open>
  \<^verbatim>\<open>findSession\<close> resolves a hook call to a session: by the assistant's session id, else
  by the working directory. \<^verbatim>\<open>handleUserPromptHook\<close> is modelled from the decoded hook
  input on, with the configuration it has loaded.
\<close>

definition HasSuffix :: "string \<Rightarrow> string \<Rightarrow> bool" where
  "HasSuffix s suffix = HasPrefix (rev s) (rev suffix)"

fun sessionByClaudeID :: "(string \<times> SessionInfo option) list \<Rightarrow> string \<Rightarrow> string \<times> int" where
  "sessionByClaudeID [] claudeSessionID = ('''', 0)"
| "sessionByClaudeID ((name, info) # rest) claudeSessionID =
     (case info of
        None \<Rightarrow> sessionByClaudeID rest claudeSessionID
      | Some i \<Rightarrow>
          (if name = '''' then sessionByClaudeID rest claudeSessionID
           else if ClaudeSessionID i = claudeSessionID then (name, TopicID i)
           else sessionByClaudeID rest claudeSessionID))"

definition findSessionByClaudeID :: "Config \<Rightarrow> string \<Rightarrow> string \<times> int" where
  "findSessionByClaudeID config claudeSessionID =
     (if claudeSessionID = '''' then ('''', 0)
      else sessionByClaudeID (Sessions config) claudeSessionID)"

fun sessionByCwd :: "(string \<times> SessionInfo option) list \<Rightarrow> string \<Rightarrow> string \<times> int" where
  "sessionByCwd [] cwd = ('''', 0)"
| "sessionByCwd ((name, info) # rest) cwd =
     (case info of
        None \<Rightarrow> sessionByCwd rest cwd
      | Some i \<Rightarrow>
          (if name = '''' then sessionByCwd rest cwd
           else if cwd = Path i \<or> HasPrefix cwd (Path i @ ''/'') \<or> HasSuffix cwd (''/'' @ name)
             then (name, TopicID i)
           else sessionByCwd rest cwd))"

definition findSessionByCwd :: "Config \<Rightarrow> string \<Rightarrow> string \<times> int" where
  "findSessionByCwd config cwd = sessionByCwd (Sessions config) cwd"

definition findSession :: "Config \<Rightarrow> string \<Rightarrow> string \<Rightarrow> string \<times> int" where
  "findSession config cwd claudeSessionID =
     (let (name, topicID) = findSessionByClaudeID config claudeSessionID
      in if name \<noteq> '''' then (name, topicID) else findSessionByCwd config cwd)"

definition persistClaudeSessionID :: "Config \<Rightarrow> string \<Rightarrow> string \<Rightarrow> hub \<Rightarrow> hub" where
  "persistClaudeSessionID config sessName claudeSessionID w =
     (if claudeSessionID = '''' \<or> sessName = '''' then w
      else case map_of (Sessions config) sessName of
             Some (Some info) \<Rightarrow>
               (if ClaudeSessionID info \<noteq> claudeSessionID then emit [SaveConfig] w else w)
           | _ \<Rightarrow> w)"

definition terminalPromptRecord :: "string \<Rightarrow> int \<Rightarrow> string \<Rightarrow> string \<Rightarrow> MessageRecord" where
  "terminalPromptRecord claudeSessionID nano sessName prompt =
     \<lparr> ID = ''prompt:'' @ claudeSessionID @ '':'' @ showInt nano, Session = sessName,
       Type = ''user_prompt'', Text = prompt, Origin = ''terminal'', TgDelivered = False,
       TgMsgID = 0, RetryCount = 0, Timestamp = 0 \<rparr>"

definition handleUserPromptHook :: "poll_env \<Rightarrow> Config \<Rightarrow> HookData \<Rightarrow> hub \<Rightarrow> hub" where
  "handleUserPromptHook env config hookData w =
     (if Prompt hookData = '''' then w
      else
        (let (sessName, topicID) = findSession config (Cwd hookData) (SessionID hookData)
         in if sessName = '''' \<or> GroupID config = 0 \<or> topicID = 0 then w
            else
              (let w1 = persistClaudeSessionID config sessName (SessionID hookData) w;
                   w2 = emit [ClearToolState sessName] w1;
                   tmuxName = tmuxSafeName sessName
               in if isFromTelegram sessName (Prompt hookData) (db_of w2) then
                    doLogEvent sessName ''prompt_confirmed'' ''hook-user-prompt'' ''''
                      (Prompt hookData)
                      (emit [RemoveFile (telegramActiveFlag tmuxName),
                             WriteFile (promptAckPath sessName),
                             WriteFile (thinkingFlag sessName)] w2)
                  else
                    emit [NotifyListener]
                      (doLogEvent sessName ''prompt_terminal'' ''hook-user-prompt'' ''''
                         (Prompt hookData)
                         (doAppendMessage (nowMilli env)
                            (terminalPromptRecord (SessionID hookData) (nowNano env) sessName
                               (Prompt hookData))
                            (emit [RemoveFile (telegramActiveFlag tmuxName),
                                   WriteFile (thinkingFlag sessName)] w2))))))"

lemma db_of_emit: "db_of (emit es w) = db_of w"
  by (simp add: emit_def)

lemma effects_emit: "effects (emit es w) = effects w @ es"
  by (simp add: emit_def)

lemma db_of_doLogEvent: "db_of (doLogEvent a b c d e w) = db_of w"
  by (simp add: doLogEvent_def db_of_emit split: option.splits)

lemma effects_doLogEvent:
  "effects (doLogEvent a b c d e w) =
     effects w @ (case db_of w of None \<Rightarrow> [] | Some _ \<Rightarrow> [LogEvent a b c d e])"
  by (simp add: doLogEvent_def effects_emit split: option.splits)

lemma db_of_doAppendMessage:
  "db_of (doAppendMessage now rec w) = snd (appendMessage now rec (db_of w))"
  by (simp add: doAppendMessage_def)

lemma effects_doAppendMessage:
  "effects (doAppendMessage now rec w) = effects w @ [AppendMessage rec]"
  by (simp add: doAppendMessage_def)

lemma sendToTmuxWithDelay_db:
  "db_of (snd (sendToTmuxWithDelay env target msgText delay w)) = db_of w"
  by (simp add: sendToTmuxWithDelay_def Let_def db_of_emit split: option.splits)

lemma sendToTmuxWithDelay_effects:
  assumes "delay > 0"
  shows "effects (snd (sendToTmuxWithDelay env target msgText delay w)) =
           effects w @ [Sleep delay, SendKeys target [''-l'', msgText]]
             @ (case sendLiteralError env of
                  Some e \<Rightarrow> []
                | None \<Rightarrow> [Sleep 100000, SendKeys target [''C-m''], Sleep 50000,
                            SendKeys target [''C-m'']])"
  using assms by (simp add: sendToTmuxWithDelay_def Let_def effects_emit split: option.splits)

lemma sendToTmuxWithDelay_err:
  "fst (sendToTmuxWithDelay env target msgText delay w) = sendLiteralError env"
  by (simp add: sendToTmuxWithDelay_def Let_def split: option.splits)




definition keysAfterText :: "poll_env \<Rightarrow> string \<Rightarrow> effect list" where
  "keysAfterText env target =
     (case sendLiteralError env of
        Some e \<Rightarrow> []
      | None \<Rightarrow> [Sleep 100000, SendKeys target [''C-m''], Sleep 50000, SendKeys target [''C-m'']])"



lemma upsert_fresh: "col_id ex \<notin> col_id ` set rows \<Longrightarrow> upsert ex rows = rows @ [ex]"
  by (induction rows) auto

lemma lookupRow_None: "lookupRow i (Some rows) = None \<longleftrightarrow> i \<notin> col_id ` set rows"
  by (auto simp: lookupRow_def rowsOf_def find_None_iff)

lemma appendMessage_fresh:
  assumes "lookupRow (ID rec) (Some rows) = None"
  shows "snd (appendMessage now rec (Some rows)) =
           Some (rows @ [valuesRow rec (if Timestamp rec = 0 then now else Timestamp rec)])"
  using assms
  by (simp add: appendMessage_def Let_def lookupRow_None upsert_fresh col_id_valuesRow)






subsection \<open>A photo in a session thread\<close>

text \<open>
  The branch \<^verbatim>\<open>if len(msg.Photo) > 0 && isGroup && threadID > 0\<close> of \<^verbatim>\<open>listen\<close>; the
  guard is part of the model, and an update that does not meet it leaves the state as it
  is here (the branches that take it then are not part of this model).
\<close>

definition photoRecord :: "int \<Rightarrow> string \<Rightarrow> string \<Rightarrow> MessageRecord" where
  "photoRecord messageID sessName caption =
     \<lparr> ID = ''tg:'' @ showInt messageID @ '':photo'', Session = sessName,
       Type = ''user_prompt'', Text = caption, Origin = ''telegram'', TgDelivered = True,
       TgMsgID = 0, RetryCount = 0, Timestamp = 0 \<rparr>"

definition photoCaption :: "string \<Rightarrow> string" where
  "photoCaption caption = (if caption = '''' then ''Analyze this image:'' else caption)"

definition photoPath :: "poll_env \<Rightarrow> string" where
  "photoPath env =
     filepathJoin env (tempDir env) (''telegram_'' @ showInt (nowNano env) @ ''.jpg'')"

definition handlePhoto ::
    "poll_env \<Rightarrow> Config \<Rightarrow> bool \<Rightarrow> int \<Rightarrow> int \<Rightarrow> int \<Rightarrow> string \<Rightarrow> string list \<Rightarrow> hub \<Rightarrow> hub" where
  "handlePhoto env config isGroup chatID threadID messageID msgCaption photos w =
     (if length photos > 0 \<and> isGroup \<and> threadID > 0 then
        (let sessionName = getSessionByTopic config threadID
         in if sessionName \<noteq> '''' then
              (let tmuxName = tmuxSafeName sessionName;
                   windowID = getWindowID config sessionName
               in if tmuxWindowExistsByID (tmuxWindows env) windowID tmuxName then
                    (let photo = last photos;
                         imgPath = photoPath env;
                         w1 = emit [DownloadFile photo imgPath] w
                     in case downloadError env of
                          Some e \<Rightarrow>
                            emit [ChatMessage chatID threadID
                                    ([CHR 0xE2, CHR 0x9D, CHR 0x8C] @ '' Download failed: '' @ e)] w1
                        | None \<Rightarrow>
                            (let caption = photoCaption msgCaption;
                                 prompt = caption @ '' '' @ imgPath;
                                 w2 = emit [ChatMessage chatID threadID
                                              ([CHR 0xF0, CHR 0x9F, CHR 0x93, CHR 0xB7]
                                                 @ '' Image saved, sending to Claude...''),
                                            ClearToolState sessionName] w1;
                                 w3 = doAppendMessage (nowMilli env)
                                        (photoRecord messageID sessionName caption) w2;
                                 (err, w4) = sendToTmuxFromTelegramWithDelay env
                                        (tmuxTargetByID (tmuxWindows env) windowID tmuxName)
                                        tmuxName prompt 2000000 w3
                             in w4))
                  else w)
            else w)
      else w)"

lemma upsert_member:
  "r' \<in> set (upsert ex rows) \<Longrightarrow>
     r' = ex \<or> (\<exists>r \<in> set rows. col_session r' = col_session r \<and> col_type r' = col_type r
                   \<and> col_origin r' = col_origin r \<and> col_text r' = col_text r)"
  by (induction rows) (auto simp: onConflict_def split: if_splits)

lemma isFromTelegram_iff:
  "isFromTelegram s p d \<longleftrightarrow>
     (\<exists>r \<in> set (rowsOf d). col_session r = s \<and> col_origin r = ''telegram''
        \<and> col_type r = ''user_prompt'' \<and> col_text r = p)"
proof (cases d)
  case None
  then show ?thesis by (simp add: isFromTelegram_def rowsOf_def)
next
  case (Some rows)
  have "0 < length (filter P rows) \<longleftrightarrow> (\<exists>r \<in> set rows. P r)" for P :: "msg_row \<Rightarrow> bool"
    by (induction rows) auto
  then show ?thesis using Some by (simp add: isFromTelegram_def rowsOf_def)
qed

lemma not_isFromTelegram_append:
  assumes "\<not> isFromTelegram s p d" and "Text rec \<noteq> p"
  shows "\<not> isFromTelegram s p (snd (appendMessage now rec d))"
proof (cases d)
  case None
  then show ?thesis by (simp add: appendMessage_def isFromTelegram_def)
next
  case (Some rows)
  let ?ex = "valuesRow rec (if Timestamp rec = 0 then now else Timestamp rec)"
  have ex: "col_text ?ex \<noteq> p" using assms(2) by (simp add: valuesRow_def)
  have "\<not> (col_session r' = s \<and> col_origin r' = ''telegram''
        \<and> col_type r' = ''user_prompt'' \<and> col_text r' = p)"
    if "r' \<in> set (upsert ?ex rows)" for r'
    using upsert_member [OF that] assms(1) ex Some
    by (auto simp: isFromTelegram_iff rowsOf_def)
  then show ?thesis
    using Some by (auto simp: isFromTelegram_iff rowsOf_def appendMessage_def Let_def)
qed

lemma hook_echoes:
  assumes "Prompt hookData = p" and "p \<noteq> ''''"
    and "findSession hconfig (Cwd hookData) (SessionID hookData) = (s, topicID)"
    and "topicID \<noteq> 0" and "GroupID hconfig \<noteq> 0" and "s \<noteq> ''''"
    and "\<not> isFromTelegram s p (db_of w)"
  shows "db_of (handleUserPromptHook henv hconfig hookData w) =
           snd (appendMessage (nowMilli henv)
                  (terminalPromptRecord (SessionID hookData) (nowNano henv) s p) (db_of w))
       \<and> AppendMessage (terminalPromptRecord (SessionID hookData) (nowNano henv) s p)
            \<in> set (effects (handleUserPromptHook henv hconfig hookData w))"
  using assms
  by (simp add: handleUserPromptHook_def Let_def persistClaudeSessionID_def db_of_emit
      db_of_doLogEvent effects_emit effects_doLogEvent db_of_doAppendMessage
      effects_doAppendMessage split: option.splits)

lemma handlePhoto_sent:
  assumes "photos \<noteq> []" and "isGroup" and "threadID > 0"
    and "getSessionByTopic config threadID = s" and "s \<noteq> ''''"
    and "tmuxWindowExistsByID (tmuxWindows env) (getWindowID config s) (tmuxSafeName s)"
    and "downloadError env = None"
  shows "db_of (handlePhoto env config isGroup chatID threadID messageID msgCaption photos w) =
           snd (appendMessage (nowMilli env) (photoRecord messageID s (photoCaption msgCaption))
                  (db_of w))"
    and "effects (handlePhoto env config isGroup chatID threadID messageID msgCaption photos w) =
           effects w @
             [DownloadFile (last photos) (photoPath env),
              ChatMessage chatID threadID
                ([CHR 0xF0, CHR 0x9F, CHR 0x93, CHR 0xB7] @ '' Image saved, sending to Claude...''),
              ClearToolState s,
              AppendMessage (photoRecord messageID s (photoCaption msgCaption)),
              WriteFile (telegramActiveFlag (tmuxSafeName s)),
              Sleep 2000000,
              SendKeys (tmuxTargetByID (tmuxWindows env) (getWindowID config s) (tmuxSafeName s))
                [''-l'', photoCaption msgCaption @ '' '' @ photoPath env]]
             @ keysAfterText env
                 (tmuxTargetByID (tmuxWindows env) (getWindowID config s) (tmuxSafeName s))"
proof -
  have p: "length photos > 0" using assms(1) by simp
  show "db_of (handlePhoto env config isGroup chatID threadID messageID msgCaption photos w) =
           snd (appendMessage (nowMilli env) (photoRecord messageID s (photoCaption msgCaption))
                  (db_of w))"
    using assms p
    by (simp add: handlePhoto_def Let_def split_beta sendToTmuxFromTelegramWithDelay_def
        sendToTmuxWithDelay_db db_of_emit db_of_doAppendMessage)
  show "effects (handlePhoto env config isGroup chatID threadID messageID msgCaption photos w) =
           effects w @
             [DownloadFile (last photos) (photoPath env),
              ChatMessage chatID threadID
                ([CHR 0xF0, CHR 0x9F, CHR 0x93, CHR 0xB7] @ '' Image saved, sending to Claude...''),
              ClearToolState s,
              AppendMessage (photoRecord messageID s (photoCaption msgCaption)),
              WriteFile (telegramActiveFlag (tmuxSafeName s)),
              Sleep 2000000,
              SendKeys (tmuxTargetByID (tmuxWindows env) (getWindowID config s) (tmuxSafeName s))
                [''-l'', photoCaption msgCaption @ '' '' @ photoPath env]]
             @ keysAfterText env
                 (tmuxTargetByID (tmuxWindows env) (getWindowID config s) (tmuxSafeName s))"
    using assms p
    by (simp add: handlePhoto_def Let_def split_beta sendToTmuxFromTelegramWithDelay_def
        sendToTmuxWithDelay_effects effects_emit effects_doAppendMessage keysAfterText_def)
qed

text \<open>
  Claim C10. A photo arrives in the thread of a running session \<open>s\<close> and is downloaded.
  The row recorded has the caption alone as its text (\<open>Analyze this image:\<close> when the
  message has none), while the text typed into the window is the caption, a space and
  the path of the saved image, which always differs from the caption. When no earlier
  chat row of the session carries that typed text, \<open>isFromTelegram\<close> is false for it after
  the poller's step, and the user-prompt hook called with it appends a second row for the
  same input: a \<^verbatim>\<open>user_prompt\<close> of origin terminal, undelivered, with the typed text (stored
  as a new row when the store is open and the hook's id is new).
\<close>

theorem photo_prompt_echoed:
  assumes photo: "photos \<noteq> []" "isGroup" "threadID > 0"
    and sess: "getSessionByTopic config threadID = s" "s \<noteq> ''''"
    and running: "tmuxWindowExistsByID (tmuxWindows env) (getWindowID config s) (tmuxSafeName s)"
    and dl: "downloadError env = None"
    and nomatch: "\<not> isFromTelegram s (photoCaption msgCaption @ '' '' @ photoPath env) (db_of w)"
    and hook: "Prompt hookData = photoCaption msgCaption @ '' '' @ photoPath env"
      "findSession hconfig (Cwd hookData) (SessionID hookData) = (s, topicID)"
      "topicID \<noteq> 0" "GroupID hconfig \<noteq> 0"
  shows "let caption = photoCaption msgCaption;
             prompt = caption @ '' '' @ photoPath env;
             target = tmuxTargetByID (tmuxWindows env) (getWindowID config s) (tmuxSafeName s);
             w' = handlePhoto env config isGroup chatID threadID messageID msgCaption photos w;
             w'' = handleUserPromptHook henv hconfig hookData w';
             echo = terminalPromptRecord (SessionID hookData) (nowNano henv) s prompt
         in effects w' = effects w @
              [DownloadFile (last photos) (photoPath env),
               ChatMessage chatID threadID
                 ([CHR 0xF0, CHR 0x9F, CHR 0x93, CHR 0xB7] @ '' Image saved, sending to Claude...''),
               ClearToolState s,
               AppendMessage (photoRecord messageID s caption),
               WriteFile (telegramActiveFlag (tmuxSafeName s)),
               Sleep 2000000,
               SendKeys target [''-l'', prompt]] @ keysAfterText env target
          \<and> Text (photoRecord messageID s caption) = caption
          \<and> (msgCaption = '''' \<longrightarrow> caption = ''Analyze this image:'')
          \<and> (msgCaption \<noteq> '''' \<longrightarrow> caption = msgCaption)
          \<and> caption \<noteq> prompt
          \<and> \<not> isFromTelegram s prompt (db_of w')
          \<and> db_of w'' = snd (appendMessage (nowMilli henv) echo (db_of w'))
          \<and> AppendMessage echo \<in> set (effects w'')
          \<and> Session echo = s \<and> Type echo = ''user_prompt'' \<and> Origin echo = ''terminal''
          \<and> Text echo = prompt \<and> \<not> TgDelivered echo
          \<and> (\<forall>rows. db_of w' = Some rows \<and> lookupRow (ID echo) (db_of w') = None \<longrightarrow>
                lookupRow (ID echo) (db_of w'') = Some (valuesRow echo (nowMilli henv)))"
proof -
  define caption where "caption = photoCaption msgCaption"
  define prompt where "prompt = caption @ '' '' @ photoPath env"
  define w' where "w' = handlePhoto env config isGroup chatID threadID messageID msgCaption photos w"
  define w'' where "w'' = handleUserPromptHook henv hconfig hookData w'"
  define echo where "echo = terminalPromptRecord (SessionID hookData) (nowNano henv) s prompt"
  note sent = handlePhoto_sent [OF photo sess running dl, of chatID messageID msgCaption w,
      folded w'_def caption_def]
  have ne: "caption \<noteq> prompt" by (simp add: prompt_def)
  have pne: "prompt \<noteq> ''''" by (simp add: prompt_def)
  have t: "Text (photoRecord messageID s caption) = caption"
    by (simp add: photoRecord_def)
  have nm: "\<not> isFromTelegram s prompt (db_of w)"
    using nomatch by (simp add: prompt_def caption_def)
  have n': "\<not> isFromTelegram s prompt (db_of w')"
    unfolding sent(1) using nm t ne by (intro not_isFromTelegram_append) simp_all
  have hp: "Prompt hookData = prompt" using hook(1) by (simp add: prompt_def caption_def)
  note h = hook_echoes [OF hp pne hook(2,3,4) sess(2) n', of henv, folded w''_def echo_def]
  have e: "Session echo = s \<and> Type echo = ''user_prompt'' \<and> Origin echo = ''terminal''
          \<and> Text echo = prompt \<and> \<not> TgDelivered echo \<and> Timestamp echo = 0"
    by (simp add: echo_def terminalPromptRecord_def)
  have st: "\<forall>rows. db_of w' = Some rows \<and> lookupRow (ID echo) (db_of w') = None \<longrightarrow>
                lookupRow (ID echo) (db_of w'') = Some (valuesRow echo (nowMilli henv))"
  proof (intro allI impI)
    fix rows
    assume a: "db_of w' = Some rows \<and> lookupRow (ID echo) (db_of w') = None"
    then have n: "lookupRow (ID echo) (Some rows) = None" by auto
    have "lookupRow (ID echo) (snd (appendMessage (nowMilli henv) echo (Some rows))) =
        Some (valuesRow echo (nowMilli henv))"
      using lookupRow_appendMessage [of "ID echo" "nowMilli henv" echo rows] n e by simp
    then show "lookupRow (ID echo) (db_of w'') = Some (valuesRow echo (nowMilli henv))"
      using h a by simp
  qed
  have c: "(msgCaption = '''' \<longrightarrow> caption = ''Analyze this image:'')
      \<and> (msgCaption \<noteq> '''' \<longrightarrow> caption = msgCaption)"
    by (simp add: caption_def photoCaption_def)
  define target where
    "target = tmuxTargetByID (tmuxWindows env) (getWindowID config s) (tmuxSafeName s)"
  have eff: "effects w' = effects w @
              [DownloadFile (last photos) (photoPath env),
               ChatMessage chatID threadID
                 ([CHR 0xF0, CHR 0x9F, CHR 0x93, CHR 0xB7] @ '' Image saved, sending to Claude...''),
               ClearToolState s,
               AppendMessage (photoRecord messageID s caption),
               WriteFile (telegramActiveFlag (tmuxSafeName s)),
               Sleep 2000000,
               SendKeys target [''-l'', prompt]] @ keysAfterText env target"
    using sent(2) by (simp add: prompt_def target_def)
  show ?thesis
    unfolding Let_def caption_def [symmetric] prompt_def [symmetric] w'_def [symmetric]
      w''_def [symmetric] echo_def [symmetric] target_def [symmetric]
    using eff t c ne n' h e st by blast
qed

subsection \<open>Concrete runs of the poller and the hook\<close>

text \<open>
  One session \<open>demo\<close> bound to thread 7 of group 100, running in window \<open>@1\<close>; an empty
  open store; a hook input of that session with a given prompt.
\<close>

definition exPollEnv :: poll_env where
  "exPollEnv =
     \<lparr> tmuxWindows = Some [(''@1'', ''demo'')], createWindowResult = Inl ''no server'',
       sendLiteralError = None, downloadError = None, nowMilli = 1700000000000,
       nowNano = 1700000000000000000, tempDir = ''/tmp'',
       filepathJoin = (\<lambda>dir name. dir @ ''/'' @ name) \<rparr>"

definition exPollConfig :: Config where
  "exPollConfig =
     \<lparr> ChatID = 1, GroupID = 100,
       Sessions = [(''demo'', Some \<lparr> TopicID = 7, Path = ''/p/demo'', WindowID = ''@1'',
                                     ClaudeSessionID = ''abc123'' \<rparr>)] \<rparr>"

definition exHub :: hub where
  "exHub = \<lparr> db_of = Some [], effects = [] \<rparr>"

definition exPromptHook :: "string \<Rightarrow> HookData" where
  "exPromptHook p =
     \<lparr> SessionID = ''abc123'', Cwd = ''/p/demo'', TranscriptPath = ''/tmp/transcript.jsonl'',
       ToolName = '''',
       ToolInput = \<lparr> Command = '''', FilePath = '''', OldString = '''', Pattern = '''',
                     Description = '''', Query = '''', URL = '''' \<rparr>,
       Prompt = p \<rparr>"

lemma ex_session:
  "getSessionByTopic exPollConfig 7 = ''demo''"
  "tmuxWindowExistsByID (tmuxWindows exPollEnv) (getWindowID exPollConfig ''demo'')
     (tmuxSafeName ''demo'')"
  "findSession exPollConfig (Cwd (exPromptHook p)) (SessionID (exPromptHook p)) = (''demo'', 7)"
  "GroupID exPollConfig \<noteq> 0"
  "Prompt (exPromptHook p) = p"
  by (simp_all add: getSessionByTopic_def exPollConfig_def tmuxWindowExistsByID_def exPollEnv_def
      getWindowID_def tmuxSafeName_def findSession_def findSessionByClaudeID_def
      exPromptHook_def)


text \<open>
  A photo without caption: the table ends with two rows for the one input, the chat row
  with the default caption and the terminal row with caption and path.
\<close>

theorem photo_prompt_echoed_witness:
  "photoCaption '''' @ '' '' @ photoPath exPollEnv
       = ''Analyze this image: /tmp/telegram_1700000000000000000.jpg''
   \<and> \<not> isFromTelegram ''demo'' (photoCaption '''' @ '' '' @ photoPath exPollEnv)
         (db_of (handlePhoto exPollEnv exPollConfig True 100 7 55 '''' [''small'', ''large''] exHub))
   \<and> map col_text (rowsOf (db_of
         (handleUserPromptHook exPollEnv exPollConfig
            (exPromptHook (photoCaption '''' @ '' '' @ photoPath exPollEnv))
            (handlePhoto exPollEnv exPollConfig True 100 7 55 '''' [''small'', ''large''] exHub))))
       = [''Analyze this image:'', ''Analyze this image: /tmp/telegram_1700000000000000000.jpg'']
   \<and> map col_origin (rowsOf (db_of
         (handleUserPromptHook exPollEnv exPollConfig
            (exPromptHook (photoCaption '''' @ '' '' @ photoPath exPollEnv))
            (handlePhoto exPollEnv exPollConfig True 100 7 55 '''' [''small'', ''large''] exHub))))
       = [''telegram'', ''terminal'']"
proof -
  let ?p = "photoCaption '''' @ '' '' @ photoPath exPollEnv"
  let ?w' = "handlePhoto exPollEnv exPollConfig True 100 7 55 '''' [''small'', ''large''] exHub"
  have pv: "?p = ''Analyze this image: /tmp/telegram_1700000000000000000.jpg''"
    by (simp add: photoCaption_def photoPath_def exPollEnv_def showInt_def)
  have h0: "[''small'', ''large''] \<noteq> []" "True" "(7::int) > 0" "''demo'' \<noteq> ''''"
    "(7::int) \<noteq> 0"
    by simp_all
  have dl: "downloadError exPollEnv = None" by (simp add: exPollEnv_def)
  have nm: "\<not> isFromTelegram ''demo'' ?p (db_of exHub)"
    by (simp add: exHub_def isFromTelegram_def)
  note inst = photo_prompt_echoed [OF h0(1,2,3) ex_session(1) h0(4) ex_session(2) dl nm
      ex_session(5) ex_session(3) h0(5) ex_session(4), of 100 55 exPollEnv, unfolded Let_def]
  have d': "db_of ?w' = Some [valuesRow (photoRecord 55 ''demo'' (photoCaption '''')) (nowMilli exPollEnv)]"
    unfolding handlePhoto_sent(1) [OF h0(1,2,3) ex_session(1) h0(4) ex_session(2) dl]
    by (simp add: exHub_def appendMessage_def photoRecord_def)
  from inst have a: "\<not> isFromTelegram ''demo'' ?p (db_of ?w')"
    and b: "db_of (handleUserPromptHook exPollEnv exPollConfig (exPromptHook ?p) ?w') =
      snd (appendMessage (nowMilli exPollEnv)
        (terminalPromptRecord (SessionID (exPromptHook ?p)) (nowNano exPollEnv) ''demo'' ?p)
        (db_of ?w'))"
    by blast+
  have c: "rowsOf (db_of (handleUserPromptHook exPollEnv exPollConfig (exPromptHook ?p) ?w')) =
      [valuesRow (photoRecord 55 ''demo'' (photoCaption '''')) (nowMilli exPollEnv),
       valuesRow (terminalPromptRecord (SessionID (exPromptHook ?p)) (nowNano exPollEnv) ''demo'' ?p)
         (nowMilli exPollEnv)]"
    unfolding b d'
    by (simp add: appendMessage_def rowsOf_def valuesRow_def photoRecord_def
        terminalPromptRecord_def Let_def)
  have t: "map col_text (rowsOf (db_of (handleUserPromptHook exPollEnv exPollConfig (exPromptHook ?p) ?w')))
      = [''Analyze this image:'', ?p]"
    unfolding c by (simp add: valuesRow_def photoRecord_def terminalPromptRecord_def photoCaption_def)
  have o: "map col_origin (rowsOf (db_of (handleUserPromptHook exPollEnv exPollConfig (exPromptHook ?p) ?w')))
      = [''telegram'', ''terminal'']"
    unfolding c by (simp add: valuesRow_def photoRecord_def terminalPromptRecord_def)
  show ?thesis
    using pv a t o by (simp only: pv [symmetric]) simp
qed

subsection \<open>A button press\<close>

text \<open>
  Modelled from the spec: the declarations of the chat API's update types are not among
  the source files. A callback carries its id, the sender's id, the payload
  \<open>sessionName:qIdx:totalQuestions:optIdx\<close> and, when the chat API sends it, the message
  the button belongs to (text, chat id, message id), as \<^verbatim>\<open>cb.ID\<close>, \<^verbatim>\<open>cb.From.ID\<close>,
  \<^verbatim>\<open>cb.Data\<close> and \<^verbatim>\<open>cb.Message\<close> in the code.
\<close>

record CallbackMessage =
  cbmText :: string
  cbmChatID :: int
  cbmMessageID :: int

record CallbackQuery =
  cbID :: string
  cbFromID :: int
  cbData :: string
  cbMessage :: "CallbackMessage option"

text \<open>
  \<^verbatim>\<open>strconv.Atoi\<close> with the error dropped, as the code calls it: 0 for a text that is
  not an optionally signed run of decimal digits, and the nearest 64-bit value for a
  number out of range.
\<close>

fun digitsValue :: "string \<Rightarrow> nat \<Rightarrow> nat option" where
  "digitsValue [] n = Some n"
| "digitsValue (ch # rest) n =
     (if (48::nat) \<le> of_char ch \<and> of_char ch \<le> (57::nat)
      then digitsValue rest (n * 10 + (of_char ch - 48))
      else None)"

definition clampInt64 :: "int \<Rightarrow> int" where
  "clampInt64 i = max (- (2 ^ 63)) (min (2 ^ 63 - 1) i)"

definition Atoi :: "string \<Rightarrow> int" where
  "Atoi s =
     (case s of
        [] \<Rightarrow> 0
      | c # cs \<Rightarrow>
          (let ds = (if c = CHR ''-'' \<or> c = CHR ''+'' then cs else s)
           in if ds = [] then 0
              else case digitsValue ds 0 of
                     None \<Rightarrow> 0
                   | Some n \<Rightarrow> clampInt64 (if c = CHR ''-'' then - int n else int n)))"

text \<open>
  The loop \<^verbatim>\<open>for i := 0; i < optionIndex; i++\<close>: one \<open>Down\<close> and a pause of 50 ms per
  round, \<open>nat optionIndex\<close> rounds (none for a negative index).
\<close>

fun pressDown :: "string \<Rightarrow> nat \<Rightarrow> effect list" where
  "pressDown target 0 = []"
| "pressDown target (Suc n) = SendKeys target [''Down''] # Sleep 50000 # pressDown target n"

text \<open>
  Go's \<^verbatim>\<open>int\<close> is taken at 64 bits, as for \<^verbatim>\<open>strconv.Atoi\<close> above, and its addition
  wraps around: \<^verbatim>\<open>optionIndex+1\<close> of the largest value is the smallest one.
\<close>

definition wrapInt64 :: "int \<Rightarrow> int" where
  "wrapInt64 i = (i + 2 ^ 63) mod 2 ^ 64 - 2 ^ 63"

text \<open>
  \<^verbatim>\<open>fmt.Sprintf("%s\n\n\<close>(check mark)\<^verbatim>\<open> Selected option %d", originalText, optionIndex+1)\<close>.
\<close>

definition selectedText :: "string \<Rightarrow> int \<Rightarrow> string" where
  "selectedText originalText optionIndex =
     originalText @ [CHR 0x0A, CHR 0x0A, CHR 0xE2, CHR 0x9C, CHR 0x93] @ '' Selected option ''
       @ showInt (wrapInt64 (optionIndex + 1))"

text \<open>
  The branch of \<^verbatim>\<open>listen\<close> for an update with a callback query. In the test of the last
  question \<^verbatim>\<open>totalQuestions-1\<close> is evaluated only when \<^verbatim>\<open>totalQuestions > 0\<close>, where it
  does not wrap.
\<close>

definition handleCallback :: "poll_env \<Rightarrow> Config \<Rightarrow> CallbackQuery \<Rightarrow> hub \<Rightarrow> hub" where
  "handleCallback env config cb w =
     (if cbFromID cb \<noteq> ChatID config then w
      else
        (let w1 = emit [AnswerCallbackQuery (cbID cb)] w;
             parts = Split (cbData cb) (CHR '':'')
         in if length parts \<ge> 3 then
              (let sessionName = parts ! 0;
                   questionIndex = Atoi (parts ! 1);
                   totalQuestions = (if length parts = 4 then Atoi (parts ! 2) else 0);
                   optionIndex = (if length parts = 4 then Atoi (parts ! 3) else Atoi (parts ! 2));
                   w2 = (case cbMessage cb of
                           None \<Rightarrow> w1
                         | Some m \<Rightarrow>
                             emit [EditMessageRemoveKeyboard (cbmChatID m) (cbmMessageID m)
                                     (selectedText (cbmText m) optionIndex)] w1);
                   tmuxName = tmuxSafeName sessionName;
                   windowID = getWindowID config sessionName
               in if tmuxWindowExistsByID (tmuxWindows env) windowID tmuxName then
                    (let target = tmuxTargetByID (tmuxWindows env) windowID tmuxName;
                         w3 = emit (pressDown target (nat optionIndex)
                                      @ [SendKeys target [''Enter'']]) w2
                     in if totalQuestions > 0 \<and> questionIndex = totalQuestions - 1
                        then emit [Sleep 300000, SendKeys target [''Enter'']] w3
                        else w3)
                  else w2)
            else w1))"

text \<open>The keys typed into a window, among the actions of a run.\<close>

fun isSendKeys :: "effect \<Rightarrow> bool" where
  "isSendKeys (SendKeys target keys) = True"
| "isSendKeys e = False"

lemma keys_pressDown:
  "filter isSendKeys (pressDown target n) = replicate n (SendKeys target [''Down''])"
  by (induction n) auto

lemma wrapInt64_small: "- (2 ^ 63) \<le> i \<Longrightarrow> i < 2 ^ 63 \<Longrightarrow> wrapInt64 i = i"
  by (simp add: wrapInt64_def)

lemma Atoi_range: "- (2 ^ 63) \<le> Atoi s \<and> Atoi s \<le> 2 ^ 63 - 1"
  by (simp add: Atoi_def clampInt64_def Let_def split: list.splits option.splits)

text \<open>
  At the largest option index the number shown wraps around to the smallest 64-bit value.
\<close>

lemma selectedText_wraps:
  "Atoi ''9223372036854775807'' = 2 ^ 63 - 1"
  "selectedText ''Which one?'' (Atoi ''9223372036854775807'') =
     ''Which one?'' @ [CHR 0x0A, CHR 0x0A, CHR 0xE2, CHR 0x9C, CHR 0x93]
       @ '' Selected option -9223372036854775808''"
proof -
  show a: "Atoi ''9223372036854775807'' = 2 ^ 63 - 1"
    by (simp add: Atoi_def clampInt64_def)
  have w: "wrapInt64 (2 ^ 63 - 1 + 1) = - 9223372036854775808"
    by (simp add: wrapInt64_def)
  have s: "showInt (- 9223372036854775808) = ''-9223372036854775808''"
    by (simp add: showInt_def)
  show "selectedText ''Which one?'' (Atoi ''9223372036854775807'') =
     ''Which one?'' @ [CHR 0x0A, CHR 0x0A, CHR 0xE2, CHR 0x9C, CHR 0x93]
       @ '' Selected option -9223372036854775808''"
    unfolding selectedText_def a w s by simp
qed

text \<open>
  Claim C9, as the code has it. A callback from the authorized principal whose payload
  splits at the colons into the four fields \<open>sessionName\<close>, \<open>q\<close>, \<open>t\<close>, \<open>opt\<close>, read as
  numbers by \<^verbatim>\<open>strconv.Atoi\<close>. Whether or not the session's window exists, the poller
  answers the callback and edits the original message (when the callback carries it) to
  the text with the chosen option and no keyboard. When the window exists it then sends
  \<open>Down\<close> to the window \<open>optIdx\<close> times, then one \<open>Enter\<close>, and, exactly when
  \<open>totalQuestions > 0\<close> and \<open>qIdx = totalQuestions - 1\<close>, one more \<open>Enter\<close> after a pause of
  300 ms: these are all the keys it sends. When the window does not exist it sends no
  key and does nothing after the edit. The message table is not touched.
\<close>

theorem callback_keys:
  assumes auth: "cbFromID cb = ChatID config"
    and payload: "Split (cbData cb) (CHR '':'') = [sessionName, q, t, opt]"
  shows "let qIdx = Atoi q; totalQuestions = Atoi t; optIdx = Atoi opt;
             windowID = getWindowID config sessionName;
             tmuxName = tmuxSafeName sessionName;
             running = tmuxWindowExistsByID (tmuxWindows env) windowID tmuxName;
             target = tmuxTargetByID (tmuxWindows env) windowID tmuxName;
             lastQuestion = (totalQuestions > 0 \<and> qIdx = totalQuestions - 1);
             w' = handleCallback env config cb w;
             new = drop (length (effects w)) (effects w')
         in effects w' = effects w @ new
          \<and> new = [AnswerCallbackQuery (cbID cb)]
              @ (case cbMessage cb of
                   None \<Rightarrow> []
                 | Some m \<Rightarrow> [EditMessageRemoveKeyboard (cbmChatID m) (cbmMessageID m)
                                 (selectedText (cbmText m) optIdx)])
              @ (if running
                 then pressDown target (nat optIdx) @ [SendKeys target [''Enter'']]
                        @ (if lastQuestion then [Sleep 300000, SendKeys target [''Enter'']] else [])
                 else [])
          \<and> filter isSendKeys new =
              (if running
               then replicate (nat optIdx) (SendKeys target [''Down''])
                      @ replicate (if lastQuestion then 2 else 1) (SendKeys target [''Enter''])
               else [])
          \<and> (\<forall>m. cbMessage cb = Some m \<longrightarrow>
                EditMessageRemoveKeyboard (cbmChatID m) (cbmMessageID m)
                  (cbmText m @ [CHR 0x0A, CHR 0x0A, CHR 0xE2, CHR 0x9C, CHR 0x93]
                     @ '' Selected option '' @ showInt (wrapInt64 (optIdx + 1))) \<in> set new)
          \<and> db_of w' = db_of w"
proof -
  let ?windowID = "getWindowID config sessionName"
  let ?tmuxName = "tmuxSafeName sessionName"
  let ?target = "tmuxTargetByID (tmuxWindows env) ?windowID ?tmuxName"
  let ?last = "Atoi t > 0 \<and> Atoi q = Atoi t - 1"
  let ?edit = "case cbMessage cb of
                   None \<Rightarrow> []
                 | Some m \<Rightarrow> [EditMessageRemoveKeyboard (cbmChatID m) (cbmMessageID m)
                                 (selectedText (cbmText m) (Atoi opt))]"
  let ?keys = "if tmuxWindowExistsByID (tmuxWindows env) ?windowID ?tmuxName
                 then pressDown ?target (nat (Atoi opt)) @ [SendKeys ?target [''Enter'']]
                        @ (if ?last then [Sleep 300000, SendKeys ?target [''Enter'']] else [])
                 else []"
  have e: "effects (handleCallback env config cb w) =
      effects w @ [AnswerCallbackQuery (cbID cb)] @ ?edit @ ?keys"
    using assms
    by (simp add: handleCallback_def Let_def effects_emit split: option.splits)
  have d: "db_of (handleCallback env config cb w) = db_of w"
    using assms
    by (simp add: handleCallback_def Let_def db_of_emit split: option.splits)
  have n: "drop (length (effects w)) (effects (handleCallback env config cb w)) =
      [AnswerCallbackQuery (cbID cb)] @ ?edit @ ?keys"
    unfolding e by simp
  have fe: "filter isSendKeys ?edit = []"
    by (simp split: option.splits)
  have fk: "filter isSendKeys ?keys =
      (if tmuxWindowExistsByID (tmuxWindows env) ?windowID ?tmuxName
       then replicate (nat (Atoi opt)) (SendKeys ?target [''Down''])
              @ replicate (if ?last then 2 else 1) (SendKeys ?target [''Enter''])
       else [])"
    by (simp add: keys_pressDown numeral_2_eq_2)
  have f: "filter isSendKeys ([AnswerCallbackQuery (cbID cb)] @ ?edit @ ?keys) =
      filter isSendKeys ?keys"
    using fe by simp
  have m: "\<forall>m. cbMessage cb = Some m \<longrightarrow>
      EditMessageRemoveKeyboard (cbmChatID m) (cbmMessageID m)
        (cbmText m @ [CHR 0x0A, CHR 0x0A, CHR 0xE2, CHR 0x9C, CHR 0x93]
           @ '' Selected option '' @ showInt (wrapInt64 (Atoi opt + 1)))
      \<in> set ([AnswerCallbackQuery (cbID cb)] @ ?edit @ ?keys)"
    by (simp add: selectedText_def)
  show ?thesis
    unfolding Let_def n f fk
    using e d m by simp
qed

text \<open>A press of the third option of the second of two questions, and its callback.\<close>

definition exCallback :: "string \<Rightarrow> CallbackQuery" where
  "exCallback payload =
     \<lparr> cbID = ''cb1'', cbFromID = 1, cbData = payload,
       cbMessage = Some \<lparr> cbmText = ''Which one?'', cbmChatID = 100, cbmMessageID = 9 \<rparr> \<rparr>"

lemma ex_payload:
  "Split ''demo:1:2:2'' (CHR '':'') = [''demo'', ''1'', ''2'', ''2'']"
  "Atoi ''1'' = 1" "Atoi ''2'' = 2"
  by (simp_all add: Atoi_def clampInt64_def)

lemma ex_selectedText:
  "selectedText ''Which one?'' 2 =
     ''Which one?'' @ [CHR 0x0A, CHR 0x0A, CHR 0xE2, CHR 0x9C, CHR 0x93] @ '' Selected option 3''"
  by (simp add: selectedText_def wrapInt64_def showInt_def)

theorem callback_keys_witness:
  "effects (handleCallback exPollEnv exPollConfig (exCallback ''demo:1:2:2'') exHub) =
     [AnswerCallbackQuery ''cb1'',
      EditMessageRemoveKeyboard 100 9
        (''Which one?'' @ [CHR 0x0A, CHR 0x0A, CHR 0xE2, CHR 0x9C, CHR 0x93]
           @ '' Selected option 3''),
      SendKeys ''@1'' [''Down''], Sleep 50000, SendKeys ''@1'' [''Down''], Sleep 50000,
      SendKeys ''@1'' [''Enter''], Sleep 300000, SendKeys ''@1'' [''Enter'']]
   \<and> filter isSendKeys
        (effects (handleCallback exPollEnv exPollConfig (exCallback ''demo:1:2:2'') exHub)) =
     [SendKeys ''@1'' [''Down''], SendKeys ''@1'' [''Down''],
      SendKeys ''@1'' [''Enter''], SendKeys ''@1'' [''Enter'']]"
proof -
  have h1: "cbFromID (exCallback ''demo:1:2:2'') = ChatID exPollConfig"
    by (simp add: exCallback_def exPollConfig_def)
  have h2: "Split (cbData (exCallback ''demo:1:2:2'')) (CHR '':'') = [''demo'', ''1'', ''2'', ''2'']"
    using ex_payload(1) by (simp add: exCallback_def)
  have t: "tmuxTargetByID (tmuxWindows exPollEnv) (getWindowID exPollConfig ''demo'')
      (tmuxSafeName ''demo'') = ''@1''"
    by (simp add: tmuxTargetByID_def getWindowID_def exPollConfig_def)
  have n: "pressDown target 2 =
      [SendKeys target [''Down''], Sleep 50000, SendKeys target [''Down''], Sleep 50000]"
    for target by (simp add: numeral_2_eq_2)
  have r: "tmuxWindowExistsByID (tmuxWindows exPollEnv) (getWindowID exPollConfig ''demo'')
      (tmuxSafeName ''demo'') = True"
    using ex_session(2) by simp
  have z: "effects exHub = []"
    by (simp add: exHub_def)
  note inst = callback_keys [OF h1 h2, of exPollEnv exHub, unfolded Let_def ex_payload t r z]
  define res where "res = effects (handleCallback exPollEnv exPollConfig (exCallback ''demo:1:2:2'') exHub)"
  from inst have a: "res =
     [AnswerCallbackQuery ''cb1'',
      EditMessageRemoveKeyboard 100 9
        (''Which one?'' @ [CHR 0x0A, CHR 0x0A, CHR 0xE2, CHR 0x9C, CHR 0x93]
           @ '' Selected option 3''),
      SendKeys ''@1'' [''Down''], Sleep 50000, SendKeys ''@1'' [''Down''], Sleep 50000,
      SendKeys ''@1'' [''Enter''], Sleep 300000, SendKeys ''@1'' [''Enter'']]"
    unfolding res_def [symmetric]
    by (simp add: exCallback_def n ex_selectedText)
  show ?thesis
    unfolding res_def [symmetric] a by simp
qed

text \<open>
  Claim C9 as stated (for every callback the keys are sent) fails when the session's
  window no longer exists: the press of option 2 of the only question is answered and
  the message is edited, but no key is sent.
\<close>

theorem callback_without_window:
  "cbFromID (exCallback ''demo:0:1:2'') = ChatID exPollConfig
   \<and> Split (cbData (exCallback ''demo:0:1:2'')) (CHR '':'') = [''demo'', ''0'', ''1'', ''2'']
   \<and> Atoi ''2'' = 2
   \<and> effects (handleCallback (exPollEnv \<lparr> tmuxWindows := Some [] \<rparr>) exPollConfig
        (exCallback ''demo:0:1:2'') exHub) =
       [AnswerCallbackQuery ''cb1'',
        EditMessageRemoveKeyboard 100 9
          (''Which one?'' @ [CHR 0x0A, CHR 0x0A, CHR 0xE2, CHR 0x9C, CHR 0x93]
             @ '' Selected option 3'')]
   \<and> filter isSendKeys
        (effects (handleCallback (exPollEnv \<lparr> tmuxWindows := Some [] \<rparr>) exPollConfig
           (exCallback ''demo:0:1:2'') exHub)) = []"
proof -
  have s: "Split ''demo:0:1:2'' (CHR '':'') = [''demo'', ''0'', ''1'', ''2'']"
    by simp
  have a: "Atoi ''2'' = 2" by (simp add: Atoi_def clampInt64_def)
  have e: "\<not> tmuxWindowExistsByID (tmuxWindows (exPollEnv \<lparr> tmuxWindows := Some [] \<rparr>))
      (getWindowID exPollConfig ''demo'') (tmuxSafeName ''demo'')"
    by (simp add: tmuxWindowExistsByID_def)
  have r: "effects (handleCallback (exPollEnv \<lparr> tmuxWindows := Some [] \<rparr>) exPollConfig
        (exCallback ''demo:0:1:2'') exHub) =
       [AnswerCallbackQuery ''cb1'',
        EditMessageRemoveKeyboard 100 9
          (''Which one?'' @ [CHR 0x0A, CHR 0x0A, CHR 0xE2, CHR 0x9C, CHR 0x93]
             @ '' Selected option 3'')]"
    using e a ex_selectedText
    by (simp add: handleCallback_def exCallback_def exPollConfig_def s Let_def exHub_def
        emit_def getWindowID_def tmuxSafeName_def tmuxWindowExistsByID_def)
  show ?thesis
    unfolding r using a s by (simp add: exCallback_def exPollConfig_def)
qed

end
